theory Spec2Isabelle
  imports Complex_Main "HOL-Library.AList"
begin

unbundle bit_operations_syntax

section \<open>Data model of FaceFilters.py\<close>

text \<open>
  A frame is an image as OpenCV delivers it: rows of BGR pixels. An asset is an image
  with an alpha channel. A landmark set is the list of points the face mesh returns for
  one face.
\<close>

type_synonym pixel = "nat \<times> nat \<times> nat"
type_synonym frame = "pixel list list"
type_synonym asset = "(nat \<times> nat \<times> nat \<times> nat) list list"
type_synonym face_landmarks = "(real \<times> real \<times> real) list"

datatype error = AssetLoadError | KeyError string | ZeroDivisionError

datatype filter_kind = Glasses | Hat | Nose | Mouth | FaceMask

record overlay_filter =
  kind :: filter_kind
  assets :: "asset list"
  current_asset_idx :: int

text \<open>The asset directories: a missing directory is \<open>None\<close>.\<close>

type_synonym asset_dirs = "string \<rightharpoonup> asset list"

text \<open>
  Modelled from the spec: the constructors of \<open>utils.Filters\<close> (\<open>GlassesFilter\<close>,
  \<open>HatFilter\<close>, \<open>NoseFilter\<close>, \<open>MouthFilter\<close>, \<open>FaceMaskFilter\<close>) are not part of
  FaceFilters.py. Loading fails with \<open>AssetLoadError\<close> if the directory is missing or
  holds zero loadable images; otherwise the store holds the images in load order and the
  selection index is 0.
\<close>

definition new_filter :: "filter_kind \<Rightarrow> asset_dirs \<Rightarrow> string \<Rightarrow> error + overlay_filter" where
  "new_filter k fs dir =
     (case fs dir of
        None \<Rightarrow> Inl AssetLoadError
      | Some imgs \<Rightarrow>
          if imgs = [] then Inl AssetLoadError
          else Inr \<lparr>kind = k, assets = imgs, current_asset_idx = 0\<rparr>)"

definition GlassesFilter :: "asset_dirs \<Rightarrow> string \<Rightarrow> error + overlay_filter" where
  "GlassesFilter = new_filter Glasses"

definition HatFilter :: "asset_dirs \<Rightarrow> string \<Rightarrow> error + overlay_filter" where
  "HatFilter = new_filter Hat"

definition NoseFilter :: "asset_dirs \<Rightarrow> string \<Rightarrow> error + overlay_filter" where
  "NoseFilter = new_filter Nose"

definition MouthFilter :: "asset_dirs \<Rightarrow> string \<Rightarrow> error + overlay_filter" where
  "MouthFilter = new_filter Mouth"

definition FaceMaskFilter :: "asset_dirs \<Rightarrow> string \<Rightarrow> error + overlay_filter" where
  "FaceMaskFilter = new_filter FaceMask"

text \<open>
  The configuration handed to \<open>mp.solutions.face_mesh.FaceMesh\<close>, and the state of a
  \<open>FaceFilterSystem\<close> object. \<open>active_filters\<close> is a Python dict: an association list
  in insertion order, with distinct keys. The capture handle and the windows are external;
  the state counts how often the handle was created and released, and records what
  \<open>cv2.imshow\<close> was given.
\<close>

record face_mesh_config =
  static_image_mode :: bool
  max_num_faces :: nat
  refine_landmarks :: bool
  min_detection_confidence :: real
  min_tracking_confidence :: real

record face_filter_system =
  cap_acquired :: nat
  cap_released :: nat
  windows_destroyed :: nat
  face_mesh :: face_mesh_config
  active_filters :: "(string \<times> overlay_filter) list"
  is_face_selected :: bool
  prev_time :: real
  frame_count :: int
  displayed :: "frame list"

text \<open>
  The drawing calls whose results FaceFilters.py only passes on, taken as parameters:
  \<open>apply_filter\<close> of a filter object (defined with the filter classes in \<open>utils.Filters\<close>;
  it is given the frame, one landmark set and the frame's height and width) and the
  \<open>cv2.putText\<close> call that draws the frame rate computed from the clock readings.
\<close>

record cv =
  apply_filter :: "overlay_filter \<Rightarrow> frame \<Rightarrow> face_landmarks \<Rightarrow> nat \<times> nat \<Rightarrow> frame"
  putText_fps :: "frame \<Rightarrow> real \<Rightarrow> frame"

text \<open>
  What the outside world answers during one iteration of the main loop:
  \<open>cap.isOpened()\<close>, \<open>cap.read()\<close> (\<open>None\<close> when \<open>success\<close> is false), the face mesh's
  \<open>multi_face_landmarks\<close> for the image it is given, \<open>time.time()\<close> and \<open>cv2.waitKey(1)\<close>.
\<close>

record tick =
  is_opened :: bool
  read_frame :: "frame option"
  mesh_process :: "face_mesh_config \<Rightarrow> frame \<Rightarrow> face_landmarks list option"
  time_now :: real
  wait_key :: int

section \<open>Construction\<close>

definition standard_filters :: "asset_dirs \<Rightarrow> error + (string \<times> overlay_filter) list" where
  "standard_filters fs =
     (case GlassesFilter fs ''imgs/glasses/'' of Inl e \<Rightarrow> Inl e | Inr g \<Rightarrow>
      case HatFilter fs ''imgs/hats/'' of Inl e \<Rightarrow> Inl e | Inr h \<Rightarrow>
      case NoseFilter fs ''imgs/noses/'' of Inl e \<Rightarrow> Inl e | Inr n \<Rightarrow>
      case MouthFilter fs ''imgs/mouths/'' of Inl e \<Rightarrow> Inl e | Inr m \<Rightarrow>
        Inr [(''glasses'', g), (''hat'', h), (''nose'', n), (''mouth'', m)])"

definition init :: "asset_dirs \<Rightarrow> real \<Rightarrow> error + face_filter_system" where
  "init fs now =
     (case standard_filters fs of
        Inl e \<Rightarrow> Inl e
      | Inr d \<Rightarrow>
          Inr \<lparr>cap_acquired = 1, cap_released = 0, windows_destroyed = 0,
               face_mesh = \<lparr>static_image_mode = False, max_num_faces = 2,
                            refine_landmarks = False, min_detection_confidence = 1 / 2,
                            min_tracking_confidence = 1 / 2\<rparr>,
               active_filters = d, is_face_selected = False, prev_time = now,
               frame_count = 0, displayed = []\<rparr>)"

section \<open>One frame\<close>

text \<open>\<open>cv2.flip(frame, 1)\<close> mirrors every row; \<open>COLOR_BGR2RGB\<close> swaps the channels.\<close>

definition flip_frame :: "frame \<Rightarrow> frame" where
  "flip_frame frame = map rev frame"

definition cvtColor_BGR2RGB :: "frame \<Rightarrow> frame" where
  "cvtColor_BGR2RGB frame = map (map (\<lambda>(b, g, r). (r, g, b))) frame"

definition shape2 :: "frame \<Rightarrow> nat \<times> nat" where
  "shape2 frame = (length frame, case frame of [] \<Rightarrow> 0 | row # _ \<Rightarrow> length row)"

text \<open>The inner loop over \<open>active_filters.items()\<close> and the outer loop over the faces.\<close>

fun apply_active :: "cv \<Rightarrow> (string \<times> overlay_filter) list \<Rightarrow> face_landmarks \<Rightarrow> frame \<Rightarrow> frame" where
  "apply_active c [] lm frame = frame"
| "apply_active c ((filter_name, filter_obj) # rest) lm frame =
     apply_active c rest lm (apply_filter c filter_obj frame lm (shape2 frame))"

fun apply_faces :: "cv \<Rightarrow> (string \<times> overlay_filter) list \<Rightarrow> face_landmarks list \<Rightarrow> frame \<Rightarrow> frame" where
  "apply_faces c fl [] frame = frame"
| "apply_faces c fl (lm # lms) frame = apply_faces c fl lms (apply_active c fl lm frame)"

text \<open>
  \<open>process_frame\<close> returns the frame, \<open>None\<close>, or the exception it raised, together with
  the state it left behind. Python's float division raises when the two clock readings
  are equal.
\<close>

definition process_frame ::
  "cv \<Rightarrow> tick \<Rightarrow> face_filter_system \<Rightarrow> (error + frame option) \<times> face_filter_system" where
  "process_frame c t s =
     (case read_frame t of
        None \<Rightarrow> (Inr None, s)
      | Some raw \<Rightarrow>
          let frame = flip_frame raw;
              s1 = s\<lparr>frame_count := frame_count s + 1\<rparr>;
              frame_rgb = cvtColor_BGR2RGB frame;
              results = mesh_process t (face_mesh s1) frame_rgb;
              frame' = (case results of
                          None \<Rightarrow> frame
                        | Some faces \<Rightarrow>
                            if faces = [] then frame
                            else apply_faces c (active_filters s1) faces frame);
              curr_time = time_now t
          in if curr_time - prev_time s1 = 0 then (Inl ZeroDivisionError, s1)
             else let fps = 1 / (curr_time - prev_time s1);
                      s2 = s1\<lparr>prev_time := curr_time\<rparr>
                  in (Inr (Some (putText_fps c frame' fps)), s2))"

section \<open>Keys\<close>

definition ord :: "char \<Rightarrow> int" where
  "ord ch = of_char ch"

datatype ctl = Continue | Break

text \<open>
  One of the ten assignments
  \<open>self.active_filters[name].current_asset_idx = (... + delta) % len(...assets)\<close>:
  a missing key and an empty asset list raise.
\<close>

definition cycle_asset ::
  "string \<Rightarrow> int \<Rightarrow> face_filter_system \<Rightarrow> (error + ctl) \<times> face_filter_system" where
  "cycle_asset name delta s =
     (case map_of (active_filters s) name of
        None \<Rightarrow> (Inl (KeyError name), s)
      | Some f \<Rightarrow>
          if length (assets f) = 0 then (Inl ZeroDivisionError, s)
          else (Inr Continue,
                s\<lparr>active_filters :=
                     AList.update name
                       (f\<lparr>current_asset_idx :=
                            (current_asset_idx f + delta) mod int (length (assets f))\<rparr>)
                       (active_filters s)\<rparr>))"

text \<open>The branch of the key \<open>f\<close>: the flag is flipped, then the filters are built anew.\<close>

definition toggle ::
  "asset_dirs \<Rightarrow> face_filter_system \<Rightarrow> (error + ctl) \<times> face_filter_system" where
  "toggle fs s =
     (let s1 = s\<lparr>is_face_selected := \<not> is_face_selected s\<rparr>
      in if is_face_selected s1 then
           (case FaceMaskFilter fs ''imgs/faces/'' of
              Inl e \<Rightarrow> (Inl e, s1)
            | Inr f \<Rightarrow> (Inr Continue, s1\<lparr>active_filters := [(''face'', f)]\<rparr>))
         else
           (case standard_filters fs of
              Inl e \<Rightarrow> (Inl e, s1)
            | Inr d \<Rightarrow> (Inr Continue, s1\<lparr>active_filters := d\<rparr>)))"

definition handle_key ::
  "asset_dirs \<Rightarrow> int \<Rightarrow> face_filter_system \<Rightarrow> (error + ctl) \<times> face_filter_system" where
  "handle_key fs key s =
     (if key = ord CHR ''e'' \<and> \<not> is_face_selected s then cycle_asset ''hat'' 1 s
      else if key = ord CHR ''q'' \<and> \<not> is_face_selected s then cycle_asset ''hat'' (- 1) s
      else if key = ord CHR ''d'' \<and> \<not> is_face_selected s then cycle_asset ''glasses'' 1 s
      else if key = ord CHR ''a'' \<and> \<not> is_face_selected s then cycle_asset ''glasses'' (- 1) s
      else if key = ord CHR ''w'' \<and> \<not> is_face_selected s then cycle_asset ''nose'' 1 s
      else if key = ord CHR ''s'' \<and> \<not> is_face_selected s then cycle_asset ''nose'' (- 1) s
      else if key = ord CHR ''c'' \<and> \<not> is_face_selected s then cycle_asset ''mouth'' 1 s
      else if key = ord CHR ''z'' \<and> \<not> is_face_selected s then cycle_asset ''mouth'' (- 1) s
      else if key = ord CHR ''f'' then toggle fs s
      else if key = ord CHR ''m'' \<and> is_face_selected s then cycle_asset ''face'' 1 s
      else if key = ord CHR ''n'' \<and> is_face_selected s then cycle_asset ''face'' (- 1) s
      else if key = ord CHR ''l'' then (Inr Break, s)
      else (Inr Continue, s))"

text \<open>
  The keys of successive iterations, handled one after the other until one of them
  raises or leaves the loop.
\<close>

fun handle_keys ::
  "asset_dirs \<Rightarrow> int list \<Rightarrow> face_filter_system \<Rightarrow> (error + ctl) \<times> face_filter_system" where
  "handle_keys fs [] s = (Inr Continue, s)"
| "handle_keys fs (key # keys) s =
     (case handle_key fs key s of
        (Inr Continue, s') \<Rightarrow> handle_keys fs keys s'
      | r \<Rightarrow> r)"

section \<open>The main loop\<close>

text \<open>
  The loop consumes one \<open>tick\<close> per iteration. It ends when the capture is no longer
  open, when no frame came back, or on the quit key (\<open>LoopExit\<close>); an exception ends it
  as \<open>Inl\<close>; \<open>NoMoreInput\<close> says that the ticks given were used up with the loop still
  running.
\<close>

datatype loop_end = LoopExit | NoMoreInput

fun main_loop ::
  "cv \<Rightarrow> asset_dirs \<Rightarrow> tick list \<Rightarrow> face_filter_system \<Rightarrow> (error + loop_end) \<times> face_filter_system" where
  "main_loop c fs [] s = (Inr NoMoreInput, s)"
| "main_loop c fs (t # ts) s =
     (if \<not> is_opened t then (Inr LoopExit, s)
      else
        (case process_frame c t s of
           (Inl e, s1) \<Rightarrow> (Inl e, s1)
         | (Inr None, s1) \<Rightarrow> (Inr LoopExit, s1)
         | (Inr (Some frame), s1) \<Rightarrow>
             (let s2 = s1\<lparr>displayed := displayed s1 @ [frame]\<rparr>;
                  key = wait_key t AND 0xFF
              in (case handle_key fs key s2 of
                    (Inl e, s3) \<Rightarrow> (Inl e, s3)
                  | (Inr Break, s3) \<Rightarrow> (Inr LoopExit, s3)
                  | (Inr Continue, s3) \<Rightarrow> main_loop c fs ts s3))))"

datatype outcome = Exited | Raised error | Running

definition run ::
  "cv \<Rightarrow> asset_dirs \<Rightarrow> tick list \<Rightarrow> face_filter_system \<Rightarrow> outcome \<times> face_filter_system" where
  "run c fs ts s =
     (case main_loop c fs ts s of
        (Inl e, s1) \<Rightarrow> (Raised e, s1)
      | (Inr NoMoreInput, s1) \<Rightarrow> (Running, s1)
      | (Inr LoopExit, s1) \<Rightarrow>
          (Exited, s1\<lparr>cap_released := cap_released s1 + 1,
                      windows_destroyed := windows_destroyed s1 + 1\<rparr>))"

section \<open>Properties of the selection state\<close>

definition index_in_range :: "overlay_filter \<Rightarrow> bool" where
  "index_in_range f \<longleftrightarrow>
     0 \<le> current_asset_idx f \<and> current_asset_idx f < int (length (assets f))"

definition all_in_range :: "face_filter_system \<Rightarrow> bool" where
  "all_in_range s \<longleftrightarrow> list_all (\<lambda>(name, f). index_in_range f) (active_filters s)"

definition all_at_zero :: "face_filter_system \<Rightarrow> bool" where
  "all_at_zero s \<longleftrightarrow>
     list_all (\<lambda>(name, f). 1 \<le> length (assets f) \<and> current_asset_idx f = 0) (active_filters s)"

definition config_ok :: "face_filter_system \<Rightarrow> bool" where
  "config_ok s \<longleftrightarrow>
     map fst (active_filters s) =
       (if is_face_selected s then [''face'']
        else [''glasses'', ''hat'', ''nose'', ''mouth''])"

definition key_bindings :: "(string \<times> bool \<times> int \<times> int) list" where
  "key_bindings =
     [(''hat'', False, ord CHR ''e'', ord CHR ''q''),
      (''glasses'', False, ord CHR ''d'', ord CHR ''a''),
      (''nose'', False, ord CHR ''w'', ord CHR ''s''),
      (''mouth'', False, ord CHR ''c'', ord CHR ''z''),
      (''face'', True, ord CHR ''m'', ord CHR ''n'')]"

definition cycle_keys :: "int list" where
  "cycle_keys =
     [ord CHR ''e'', ord CHR ''q'', ord CHR ''d'', ord CHR ''a'', ord CHR ''w'',
      ord CHR ''s'', ord CHR ''c'', ord CHR ''z'', ord CHR ''m'', ord CHR ''n'']"

definition all_keys :: "int list" where
  "all_keys = cycle_keys @ [ord CHR ''f'', ord CHR ''l'']"

text \<open>
  The part of the state the keys act on, the key of an iteration, the iterations on which
  a frame is read and the clock advances, and how the loop ends when the key handling
  ends.
\<close>

definition session :: "face_filter_system \<Rightarrow> (string \<times> overlay_filter) list \<times> bool" where
  "session s = (active_filters s, is_face_selected s)"

definition pressed :: "tick \<Rightarrow> int" where
  "pressed t = wait_key t AND 0xFF"

fun frames_ok :: "real \<Rightarrow> tick list \<Rightarrow> bool" where
  "frames_ok prev [] = True"
| "frames_ok prev (t # ts) =
     (is_opened t \<and> read_frame t \<noteq> None \<and> time_now t \<noteq> prev \<and> frames_ok (time_now t) ts)"

fun loop_result :: "error + ctl \<Rightarrow> error + loop_end" where
  "loop_result (Inl e) = Inl e"
| "loop_result (Inr Continue) = Inr NoMoreInput"
| "loop_result (Inr Break) = Inr LoopExit"

section \<open>Properties of a processed frame\<close>

text \<open>
  The landmark sets that \<open>process_frame\<close> loops over for a captured frame \<open>raw\<close>: none
  when \<open>multi_face_landmarks\<close> is \<open>None\<close> or empty.
\<close>

definition detected_faces :: "tick \<Rightarrow> face_filter_system \<Rightarrow> frame \<Rightarrow> face_landmarks list" where
  "detected_faces t s raw =
     (case mesh_process t (face_mesh s) (cvtColor_BGR2RGB (flip_frame raw)) of
        None \<Rightarrow> []
      | Some faces \<Rightarrow> faces)"

text \<open>
  The per-frame operation in the words of the specification: for each face in detection
  order, every active filter in the order of the mapping, all drawing onto one frame.
\<close>

definition composite_in_order ::
  "cv \<Rightarrow> (string \<times> overlay_filter) list \<Rightarrow> face_landmarks list \<Rightarrow> frame \<Rightarrow> frame" where
  "composite_in_order c fl faces frame =
     foldl (\<lambda>fr (lm, filter_obj). apply_filter c filter_obj fr lm (shape2 fr)) frame
       (List.product faces (map snd fl))"

text \<open>What the loop body never writes: the accounting of the capture handle and of the
  windows, and the configuration of the face mesh.\<close>

definition resources :: "face_filter_system \<Rightarrow> nat \<times> nat \<times> nat \<times> face_mesh_config" where
  "resources s = (cap_acquired s, cap_released s, windows_destroyed s, face_mesh s)"

section \<open>A concrete system\<close>

definition demo_asset :: asset where
  "demo_asset = [[(0, 0, 0, 255)]]"

definition demo_dirs :: asset_dirs where
  "demo_dirs =
     [''imgs/glasses/'' \<mapsto> [demo_asset, demo_asset],
      ''imgs/hats/'' \<mapsto> [demo_asset, demo_asset, demo_asset],
      ''imgs/noses/'' \<mapsto> [demo_asset],
      ''imgs/mouths/'' \<mapsto> [demo_asset, demo_asset],
      ''imgs/faces/'' \<mapsto> [demo_asset, demo_asset]]"

definition demo_mesh :: face_mesh_config where
  "demo_mesh =
     \<lparr>static_image_mode = False, max_num_faces = 2, refine_landmarks = False,
      min_detection_confidence = 1 / 2, min_tracking_confidence = 1 / 2\<rparr>"

definition demo_system :: face_filter_system where
  "demo_system =
     \<lparr>cap_acquired = 1, cap_released = 0, windows_destroyed = 0, face_mesh = demo_mesh,
      active_filters =
        [(''glasses'', \<lparr>kind = Glasses, assets = [demo_asset, demo_asset], current_asset_idx = 0\<rparr>),
         (''hat'', \<lparr>kind = Hat, assets = [demo_asset, demo_asset, demo_asset], current_asset_idx = 0\<rparr>),
         (''nose'', \<lparr>kind = Nose, assets = [demo_asset], current_asset_idx = 0\<rparr>),
         (''mouth'', \<lparr>kind = Mouth, assets = [demo_asset, demo_asset], current_asset_idx = 0\<rparr>)],
      is_face_selected = False, prev_time = 0, frame_count = 0, displayed = []\<rparr>"

definition demo_cycled_system :: face_filter_system where
  "demo_cycled_system =
     demo_system\<lparr>active_filters :=
       [(''glasses'', \<lparr>kind = Glasses, assets = [demo_asset, demo_asset], current_asset_idx = 1\<rparr>),
        (''hat'', \<lparr>kind = Hat, assets = [demo_asset, demo_asset, demo_asset], current_asset_idx = 2\<rparr>),
        (''nose'', \<lparr>kind = Nose, assets = [demo_asset], current_asset_idx = 0\<rparr>),
        (''mouth'', \<lparr>kind = Mouth, assets = [demo_asset, demo_asset], current_asset_idx = 1\<rparr>)]\<rparr>"

definition demo_face_system :: face_filter_system where
  "demo_face_system =
     demo_system\<lparr>active_filters :=
                   [(''face'', \<lparr>kind = FaceMask, assets = [demo_asset, demo_asset], current_asset_idx = 1\<rparr>)],
                 is_face_selected := True\<rparr>"

definition demo_frame :: frame where
  "demo_frame = [[(1, 2, 3), (4, 5, 6)], [(7, 8, 9), (10, 11, 12)]]"

text \<open>Stand-ins for the external drawing calls: each leaves a mark of its arguments.\<close>

definition demo_cv :: cv where
  "demo_cv =
     \<lparr>apply_filter = (\<lambda>f frame lm shape.
        frame @ [[(length (assets f), nat (current_asset_idx f), length lm)]]),
      putText_fps = (\<lambda>frame fps. frame @ [[(255, 255, 255)]])\<rparr>"

definition demo_faces :: "face_landmarks list" where
  "demo_faces = [[(0, 0, 0)], [(0, 0, 0), (1, 1, 1)], [(0, 0, 0), (1, 1, 1), (2, 2, 2)]]"

definition demo_tick :: tick where
  "demo_tick =
     \<lparr>is_opened = True, read_frame = Some demo_frame,
      mesh_process = (\<lambda>cfg img. Some (take (max_num_faces cfg) demo_faces)),
      time_now = 1, wait_key = 108\<rparr>"

definition demo_tick_no_face :: tick where
  "demo_tick_no_face = demo_tick\<lparr>mesh_process := (\<lambda>cfg img. None), wait_key := - 1\<rparr>"

definition demo_tick_read_failure :: tick where
  "demo_tick_read_failure = demo_tick\<lparr>read_frame := None\<rparr>"

text \<open>The same directories without \<open>imgs/faces/\<close>, a tick whose key is \<open>f\<close>, and a tick
  whose clock reading equals the one \<open>demo_system\<close> holds.\<close>

definition demo_dirs_no_faces :: asset_dirs where
  "demo_dirs_no_faces = demo_dirs(''imgs/faces/'' := None)"

definition demo_tick_toggle :: tick where
  "demo_tick_toggle = demo_tick\<lparr>wait_key := 102\<rparr>"

definition demo_tick_same_time :: tick where
  "demo_tick_same_time = demo_tick\<lparr>time_now := 0\<rparr>"

section \<open>Invariants of the key handling\<close>

lemma update_in_range:
  "list_all (\<lambda>(name, f). index_in_range f) al \<Longrightarrow> index_in_range v \<Longrightarrow>
   list_all (\<lambda>(name, f). index_in_range f) (AList.update k v al)"
  by (induction al) auto

lemma mod_in_range:
  "assets f \<noteq> [] \<Longrightarrow>
   index_in_range (f\<lparr>current_asset_idx := (current_asset_idx f + d) mod int (length (assets f))\<rparr>)"
  by (simp add: index_in_range_def)

lemma cycle_asset_in_range:
  "all_in_range s \<Longrightarrow> all_in_range (snd (cycle_asset name d s))"
  by (simp add: all_in_range_def cycle_asset_def update_in_range mod_in_range
      split: option.splits)

lemma new_filter_in_range: "new_filter k fs dir = Inr f \<Longrightarrow> index_in_range f"
  by (auto simp: new_filter_def index_in_range_def split: option.splits if_splits)

lemma new_filter_zero:
  "new_filter k fs dir = Inr f \<Longrightarrow> current_asset_idx f = 0 \<and> assets f \<noteq> [] \<and> kind f = k"
  by (auto simp: new_filter_def split: option.splits if_splits)

lemma standard_filters_in_range:
  "standard_filters fs = Inr d \<Longrightarrow> list_all (\<lambda>(name, f). index_in_range f) d"
  by (auto simp: standard_filters_def GlassesFilter_def HatFilter_def NoseFilter_def
      MouthFilter_def split: sum.splits dest: new_filter_in_range)

lemma standard_filters_names:
  "standard_filters fs = Inr d \<Longrightarrow> map fst d = [''glasses'', ''hat'', ''nose'', ''mouth'']"
  by (auto simp: standard_filters_def split: sum.splits)

lemma toggle_in_range: "all_in_range s \<Longrightarrow> all_in_range (snd (toggle fs s))"
  by (auto simp: toggle_def Let_def all_in_range_def FaceMaskFilter_def
      split: sum.splits dest: new_filter_in_range standard_filters_in_range)

lemma handle_key_cases:
  assumes "\<And>name d. P (cycle_asset name d s)"
    and "P (toggle fs s)" and "P (Inr Break, s)" and "P (Inr Continue, s)"
  shows "P (handle_key fs key s)"
  unfolding handle_key_def by (simp add: assms)

lemma handle_key_in_range:
  "all_in_range s \<Longrightarrow> all_in_range (snd (handle_key fs key s))"
  by (rule handle_key_cases) (simp_all add: cycle_asset_in_range toggle_in_range)

lemma update_same_keys:
  "map_of al k = Some v \<Longrightarrow> map fst (AList.update k v' al) = map fst al"
  by (induction al) (auto split: if_splits)

lemma cycle_asset_config:
  "config_ok s \<Longrightarrow> config_ok (snd (cycle_asset name d s))"
  by (simp add: config_ok_def cycle_asset_def update_same_keys split: option.splits)

lemma toggle_config:
  "toggle fs s = (Inr c, s') \<Longrightarrow> config_ok s'"
  by (auto simp: toggle_def Let_def config_ok_def split: if_splits sum.splits
      dest: standard_filters_names)

lemma handle_key_config:
  assumes "config_ok s" and "handle_key fs key s = (Inr c, s')"
  shows "config_ok s'"
proof -
  have "\<forall>c s'. handle_key fs key s = (Inr c, s') \<longrightarrow> config_ok s'"
  proof (rule handle_key_cases)
    fix name d
    show "\<forall>c s'. cycle_asset name d s = (Inr c, s') \<longrightarrow> config_ok s'"
      using cycle_asset_config [OF assms(1), of name d] by auto
  next
    show "\<forall>c s'. toggle fs s = (Inr c, s') \<longrightarrow> config_ok s'"
      by (auto dest: toggle_config)
  qed (use assms(1) in auto)
  with assms(2) show ?thesis by blast
qed

lemma all_at_zero_in_range: "all_at_zero s \<Longrightarrow> all_in_range s"
  by (fastforce simp: all_at_zero_def all_in_range_def index_in_range_def list_all_iff)

lemma cycle_asset_ok:
  "map_of (active_filters s) name = Some f \<Longrightarrow> assets f \<noteq> [] \<Longrightarrow>
   cycle_asset name d s =
     (Inr Continue,
      s\<lparr>active_filters :=
           AList.update name
             (f\<lparr>current_asset_idx := (current_asset_idx f + d) mod int (length (assets f))\<rparr>)
             (active_filters s)\<rparr>)"
  by (simp add: cycle_asset_def)

lemma lookup_active:
  assumes "all_in_range s" and "name \<in> set (map fst (active_filters s))"
  shows "\<exists>f. map_of (active_filters s) name = Some f \<and> assets f \<noteq> []"
proof -
  from assms(2) obtain f where f: "map_of (active_filters s) name = Some f"
    by (metis map_of_eq_None_iff not_Some_eq set_map)
  then have "(name, f) \<in> set (active_filters s)" by (rule map_of_SomeD)
  with assms(1) have "index_in_range f"
    by (auto simp: all_in_range_def list_all_iff)
  then have "assets f \<noteq> []" by (auto simp: index_in_range_def)
  with f show ?thesis by blast
qed

lemma cycle_asset_no_error:
  "all_in_range s \<Longrightarrow> name \<in> set (map fst (active_filters s)) \<Longrightarrow>
   fst (cycle_asset name d s) = Inr Continue"
  using lookup_active [of s name] by (auto simp: cycle_asset_ok)

lemma handle_key_cycle_no_error:
  assumes "config_ok s" and "all_in_range s" and "key \<in> set cycle_keys"
  shows "fst (handle_key fs key s) = Inr Continue"
proof (cases "is_face_selected s")
  case True
  with assms(1) have "''face'' \<in> set (map fst (active_filters s))"
    by (simp add: config_ok_def)
  then have "fst (cycle_asset ''face'' d s) = Inr Continue" for d
    using assms(2) by (rule cycle_asset_no_error [rotated])
  with True assms(3) show ?thesis
    by (auto simp: handle_key_def cycle_keys_def ord_def)
next
  case False
  with assms(1) have "name \<in> {''glasses'', ''hat'', ''nose'', ''mouth''} \<Longrightarrow>
      name \<in> set (map fst (active_filters s))" for name
    by (auto simp: config_ok_def)
  then have "name \<in> {''glasses'', ''hat'', ''nose'', ''mouth''} \<Longrightarrow>
      fst (cycle_asset name d s) = Inr Continue" for name d
    using assms(2) by (simp add: cycle_asset_no_error)
  with False assms(3) show ?thesis
    by (auto simp: handle_key_def cycle_keys_def ord_def)
qed

lemma handle_keys_cycle:
  "config_ok s \<Longrightarrow> all_in_range s \<Longrightarrow> set keys \<subseteq> set cycle_keys \<Longrightarrow>
   fst (handle_keys fs keys s) = Inr Continue \<and>
   all_in_range (snd (handle_keys fs keys s)) \<and> config_ok (snd (handle_keys fs keys s))"
proof (induction keys arbitrary: s)
  case Nil
  then show ?case by simp
next
  case (Cons key keys)
  obtain s' where s': "handle_key fs key s = (Inr Continue, s')"
    using handle_key_cycle_no_error [of s key fs] Cons.prems
    by (cases "handle_key fs key s") auto
  have "all_in_range s'"
    using handle_key_in_range [of s fs key] Cons.prems(2) s' by simp
  moreover have "config_ok s'"
    using handle_key_config [OF Cons.prems(1) s'] .
  moreover have "set keys \<subseteq> set cycle_keys"
    using Cons.prems(3) by simp
  ultimately show ?case
    using Cons.IH [of s'] s' by simp
qed

section \<open>Asset cycling\<close>

text \<open>
  C1. In a session whose filters all hold at least one asset and stand at index 0
  (\<open>all_at_zero\<close>), any sequence of cycle-next and cycle-prev keys is handled without an
  exception, and after every prefix of the sequence each filter's selection index lies in
  \<open>[0, assetCount)\<close>.
\<close>

theorem cycling_keeps_index_in_range:
  assumes "config_ok s" and "all_at_zero s" and "set keys \<subseteq> set cycle_keys"
  shows "\<forall>k \<le> length keys.
           fst (handle_keys fs (take k keys) s) = Inr Continue \<and>
           all_in_range (snd (handle_keys fs (take k keys) s))"
proof (intro allI impI)
  fix k
  have "set (take k keys) \<subseteq> set cycle_keys"
    using assms(3) set_take_subset [of k keys] by blast
  with handle_keys_cycle [OF assms(1) all_at_zero_in_range [OF assms(2)], of "take k keys" fs]
  show "fst (handle_keys fs (take k keys) s) = Inr Continue \<and>
        all_in_range (snd (handle_keys fs (take k keys) s))"
    by blast
qed

theorem cycling_keeps_index_in_range_witness:
  "config_ok demo_system \<and> all_at_zero demo_system \<and>
   set [ord CHR ''e'', ord CHR ''q'', ord CHR ''q'', ord CHR ''d''] \<subseteq> set cycle_keys \<and>
   fst (handle_keys demo_dirs
          (take 3 [ord CHR ''e'', ord CHR ''q'', ord CHR ''q'', ord CHR ''d'']) demo_system) =
     Inr Continue \<and>
   all_in_range
     (snd (handle_keys demo_dirs
             (take 3 [ord CHR ''e'', ord CHR ''q'', ord CHR ''q'', ord CHR ''d'']) demo_system))"
proof -
  have a: "config_ok demo_system"
    by (simp add: config_ok_def demo_system_def)
  have b: "all_at_zero demo_system"
    by (simp add: all_at_zero_def demo_system_def)
  have c: "set [ord CHR ''e'', ord CHR ''q'', ord CHR ''q'', ord CHR ''d''] \<subseteq> set cycle_keys"
    by (simp add: cycle_keys_def)
  have d: "(3::nat) \<le> length [ord CHR ''e'', ord CHR ''q'', ord CHR ''q'', ord CHR ''d'']"
    by simp
  show ?thesis
    using a b c cycling_keeps_index_in_range [OF a b c, of demo_dirs, rule_format, OF d]
    by blast
qed

lemma binding_keys:
  assumes "(name, sel, nk, pk) \<in> set key_bindings" and "is_face_selected s = sel"
  shows "handle_key fs nk s = cycle_asset name 1 s"
    and "handle_key fs pk s = cycle_asset name (- 1) s"
  using assms by (auto simp: key_bindings_def handle_key_def ord_def)

lemma cycle_asset_flag:
  "is_face_selected (snd (cycle_asset name d s)) = is_face_selected s"
  by (simp add: cycle_asset_def split: option.splits)

lemma next_repeated:
  assumes "(name, sel, nk, pk) \<in> set key_bindings"
  shows "is_face_selected s = sel \<Longrightarrow> map_of (active_filters s) name = Some f \<Longrightarrow>
     assets f \<noteq> [] \<Longrightarrow>
     handle_keys fs (replicate (Suc k) nk) s =
       (Inr Continue,
        s\<lparr>active_filters :=
             AList.update name
               (f\<lparr>current_asset_idx :=
                    (current_asset_idx f + 1 + int k) mod int (length (assets f))\<rparr>)
               (active_filters s)\<rparr>)"
proof (induction k arbitrary: s f)
  case 0
  then show ?case
    by (simp add: binding_keys(1) [OF assms] cycle_asset_ok)
next
  case (Suc k)
  let ?f1 = "f\<lparr>current_asset_idx := (current_asset_idx f + 1) mod int (length (assets f))\<rparr>"
  let ?s1 = "s\<lparr>active_filters := AList.update name ?f1 (active_filters s)\<rparr>"
  have step: "handle_key fs nk s = (Inr Continue, ?s1)"
    using Suc.prems by (simp add: binding_keys(1) [OF assms] cycle_asset_ok)
  have "handle_keys fs (replicate (Suc k) nk) ?s1 =
       (Inr Continue,
        ?s1\<lparr>active_filters :=
             AList.update name
               (?f1\<lparr>current_asset_idx :=
                    (current_asset_idx ?f1 + 1 + int k) mod int (length (assets ?f1))\<rparr>)
               (active_filters ?s1)\<rparr>)"
    using Suc.prems by (intro Suc.IH) (simp_all add: AList.update_conv')
  moreover have "((current_asset_idx f + 1) mod int (length (assets f)) + 1 + int k)
        mod int (length (assets f)) =
      (current_asset_idx f + 1 + int (Suc k)) mod int (length (assets f))"
  proof -
    have "((current_asset_idx f + 1) mod int (length (assets f)) + (1 + int k))
        mod int (length (assets f)) =
      (current_asset_idx f + 1 + (1 + int k)) mod int (length (assets f))"
      by (rule mod_add_left_eq)
    then show ?thesis by (simp add: add.assoc)
  qed
  ultimately show ?case
    using step by simp
qed

text \<open>
  C2. For every filter kind with its pair of keys (\<open>key_bindings\<close>), in the session
  state that accepts them, and for a store of \<open>N \<ge> 1\<close> assets whose selection index lies
  in \<open>[0, N)\<close>: pressing the next key \<open>N\<close> times leaves the session exactly as it was,
  and so does pressing the previous key right after the next key.
\<close>

theorem cycle_next_n_times_and_prev_after_next:
  assumes "(name, sel, nk, pk) \<in> set key_bindings"
    and "is_face_selected s = sel"
    and "map_of (active_filters s) name = Some f"
    and "index_in_range f"
  shows "handle_keys fs (replicate (length (assets f)) nk) s = (Inr Continue, s) \<and>
         handle_keys fs [nk, pk] s = (Inr Continue, s)"
proof -
  from assms(4) have ne: "assets f \<noteq> []" and lo: "0 \<le> current_asset_idx f"
    and hi: "current_asset_idx f < int (length (assets f))"
    by (auto simp: index_in_range_def)
  from ne obtain m where m: "length (assets f) = Suc m"
    by (cases "assets f") auto
  have same: "f\<lparr>current_asset_idx := current_asset_idx f\<rparr> = f" by simp
  have "(current_asset_idx f + 1 + int m) mod int (length (assets f)) = current_asset_idx f"
    using lo hi m by (simp add: add.assoc)
  then have "handle_keys fs (replicate (Suc m) nk) s =
      (Inr Continue, s\<lparr>active_filters := AList.update name f (active_filters s)\<rparr>)"
    using next_repeated [OF assms(1) assms(2) assms(3) ne, of fs m] by (simp add: same)
  then have first: "handle_keys fs (replicate (length (assets f)) nk) s = (Inr Continue, s)"
    using m AList.update_triv [OF assms(3)] by simp
  let ?f1 = "f\<lparr>current_asset_idx := (current_asset_idx f + 1) mod int (length (assets f))\<rparr>"
  let ?s1 = "s\<lparr>active_filters := AList.update name ?f1 (active_filters s)\<rparr>"
  have n1: "handle_key fs nk s = (Inr Continue, ?s1)"
    using assms(2,3) ne by (simp add: binding_keys(1) [OF assms(1)] cycle_asset_ok)
  have prev_next: "((current_asset_idx f + 1) mod int (length (assets f)) - 1)
      mod int (length (assets f)) = current_asset_idx f"
    using lo hi by (simp add: mod_simps)
  have "handle_key fs pk ?s1 = cycle_asset name (- 1) ?s1"
    using assms(2) by (intro binding_keys(2) [OF assms(1)]) simp
  also have "\<dots> = (Inr Continue, s\<lparr>active_filters := AList.update name f (active_filters s)\<rparr>)"
    using ne prev_next by (simp add: cycle_asset_def AList.update_conv' same)
  finally have "handle_key fs pk ?s1 = (Inr Continue, s)"
    using AList.update_triv [OF assms(3)] by simp
  with n1 have "handle_keys fs [nk, pk] s = (Inr Continue, s)" by simp
  with first show ?thesis by simp
qed

theorem cycle_next_n_times_and_prev_after_next_witness:
  "(''hat'', False, ord CHR ''e'', ord CHR ''q'') \<in> set key_bindings \<and>
   is_face_selected demo_system = False \<and>
   map_of (active_filters demo_system) ''hat'' =
     Some \<lparr>kind = Hat, assets = [demo_asset, demo_asset, demo_asset], current_asset_idx = 0\<rparr> \<and>
   index_in_range
     \<lparr>kind = Hat, assets = [demo_asset, demo_asset, demo_asset], current_asset_idx = 0\<rparr> \<and>
   handle_keys demo_dirs [ord CHR ''e'', ord CHR ''e'', ord CHR ''e''] demo_system =
     (Inr Continue, demo_system) \<and>
   handle_keys demo_dirs [ord CHR ''e'', ord CHR ''q''] demo_system = (Inr Continue, demo_system)"
proof -
  let ?hat = "\<lparr>kind = Hat, assets = [demo_asset, demo_asset, demo_asset], current_asset_idx = 0\<rparr>"
  have a: "(''hat'', False, ord CHR ''e'', ord CHR ''q'') \<in> set key_bindings"
    by (simp add: key_bindings_def)
  have b: "is_face_selected demo_system = False"
    by (simp add: demo_system_def)
  have c: "map_of (active_filters demo_system) ''hat'' = Some ?hat"
    by (simp add: demo_system_def)
  have d: "index_in_range ?hat"
    by (simp add: index_in_range_def)
  have e: "replicate (length (assets ?hat)) (ord CHR ''e'') =
      [ord CHR ''e'', ord CHR ''e'', ord CHR ''e'']"
    by simp
  show ?thesis
    using a b c d cycle_next_n_times_and_prev_after_next [OF a b c d, of demo_dirs]
    unfolding e by blast
qed

section \<open>The toggle\<close>

lemma ord_values:
  "ord CHR ''e'' = 101" "ord CHR ''q'' = 113" "ord CHR ''d'' = 100" "ord CHR ''a'' = 97"
  "ord CHR ''w'' = 119" "ord CHR ''s'' = 115" "ord CHR ''c'' = 99" "ord CHR ''z'' = 122"
  "ord CHR ''f'' = 102" "ord CHR ''m'' = 109" "ord CHR ''n'' = 110" "ord CHR ''l'' = 108"
  by (simp_all add: ord_def)

lemma standard_filters_zero:
  "standard_filters fs = Inr d \<Longrightarrow>
   map (\<lambda>(name, f). (name, kind f, current_asset_idx f)) d =
     [(''glasses'', Glasses, 0), (''hat'', Hat, 0), (''nose'', Nose, 0), (''mouth'', Mouth, 0)]"
  by (auto simp: standard_filters_def GlassesFilter_def HatFilter_def NoseFilter_def
      MouthFilter_def split: sum.splits dest: new_filter_zero)

lemma toggle_on:
  "\<not> is_face_selected s \<Longrightarrow> FaceMaskFilter fs ''imgs/faces/'' = Inr m \<Longrightarrow>
   toggle fs s = (Inr Continue, s\<lparr>is_face_selected := True, active_filters := [(''face'', m)]\<rparr>)"
  by (simp add: toggle_def Let_def)

lemma toggle_off:
  "is_face_selected s \<Longrightarrow> standard_filters fs = Inr d \<Longrightarrow>
   toggle fs s = (Inr Continue, s\<lparr>is_face_selected := False, active_filters := d\<rparr>)"
  by (simp add: toggle_def Let_def)

lemma handle_key_f: "handle_key fs (ord CHR ''f'') s = toggle fs s"
  by (simp add: handle_key_def ord_values)

text \<open>
  C3. Where the five asset directories load, from any session in the STANDARD state
  (whatever its selection indices) the toggle key leads to the FACE_MASK state with the
  single filter \<open>face\<close>, and the toggle key pressed twice leads back to the STANDARD state
  with the filters glasses, hat, nose, mouth in this order, each at selection index 0.
  The session that \<open>init\<close> builds is in the STANDARD state with the same filters.
\<close>

theorem toggle_twice_restores_standard:
  assumes "FaceMaskFilter fs ''imgs/faces/'' = Inr m" and "standard_filters fs = Inr d"
    and "\<not> is_face_selected s"
  shows "\<exists>s1 s2 s0.
           handle_key fs (ord CHR ''f'') s = (Inr Continue, s1) \<and>
           is_face_selected s1 \<and> active_filters s1 = [(''face'', m)] \<and>
           handle_keys fs [ord CHR ''f'', ord CHR ''f''] s = (Inr Continue, s2) \<and>
           \<not> is_face_selected s2 \<and>
           map (\<lambda>(name, f). (name, kind f, current_asset_idx f)) (active_filters s2) =
             [(''glasses'', Glasses, 0), (''hat'', Hat, 0), (''nose'', Nose, 0),
              (''mouth'', Mouth, 0)] \<and>
           init fs now = Inr s0 \<and> \<not> is_face_selected s0 \<and>
           active_filters s0 = active_filters s2"
proof -
  let ?s1 = "s\<lparr>is_face_selected := True, active_filters := [(''face'', m)]\<rparr>"
  let ?s2 = "?s1\<lparr>is_face_selected := False, active_filters := d\<rparr>"
  have 1: "handle_key fs (ord CHR ''f'') s = (Inr Continue, ?s1)"
    using assms(1,3) by (simp add: handle_key_f toggle_on)
  have 2: "handle_key fs (ord CHR ''f'') ?s1 = (Inr Continue, ?s2)"
    using assms(2) by (simp add: handle_key_f toggle_off)
  have 3: "handle_keys fs [ord CHR ''f'', ord CHR ''f''] s = (Inr Continue, ?s2)"
    using 1 2 by simp
  obtain s0 where s0: "init fs now = Inr s0" "\<not> is_face_selected s0" "active_filters s0 = d"
    using assms(2) by (simp add: init_def)
  show ?thesis
    using 1 3 s0 standard_filters_zero [OF assms(2)]
    by (intro exI [of _ ?s1] exI [of _ ?s2] exI [of _ s0]) simp
qed

theorem toggle_twice_restores_standard_witness:
  "FaceMaskFilter demo_dirs ''imgs/faces/'' =
     Inr \<lparr>kind = FaceMask, assets = [demo_asset, demo_asset], current_asset_idx = 0\<rparr> \<and>
   standard_filters demo_dirs = Inr (active_filters demo_system) \<and>
   \<not> is_face_selected demo_cycled_system \<and>
   (\<exists>s1 s2 s0.
      handle_key demo_dirs (ord CHR ''f'') demo_cycled_system = (Inr Continue, s1) \<and>
      is_face_selected s1 \<and>
      active_filters s1 =
        [(''face'', \<lparr>kind = FaceMask, assets = [demo_asset, demo_asset], current_asset_idx = 0\<rparr>)] \<and>
      handle_keys demo_dirs [ord CHR ''f'', ord CHR ''f''] demo_cycled_system = (Inr Continue, s2) \<and>
      \<not> is_face_selected s2 \<and>
      map (\<lambda>(name, f). (name, kind f, current_asset_idx f)) (active_filters s2) =
        [(''glasses'', Glasses, 0), (''hat'', Hat, 0), (''nose'', Nose, 0), (''mouth'', Mouth, 0)] \<and>
      init demo_dirs 0 = Inr s0 \<and> \<not> is_face_selected s0 \<and>
      active_filters s0 = active_filters s2)"
proof -
  have a: "FaceMaskFilter demo_dirs ''imgs/faces/'' =
      Inr \<lparr>kind = FaceMask, assets = [demo_asset, demo_asset], current_asset_idx = 0\<rparr>"
    by (simp add: FaceMaskFilter_def new_filter_def demo_dirs_def)
  have b: "standard_filters demo_dirs = Inr (active_filters demo_system)"
    by (simp add: standard_filters_def GlassesFilter_def HatFilter_def NoseFilter_def
        MouthFilter_def new_filter_def demo_dirs_def demo_system_def)
  have c: "\<not> is_face_selected demo_cycled_system"
    by (simp add: demo_cycled_system_def demo_system_def)
  show ?thesis
    using a b c toggle_twice_restores_standard [OF a b c, of 0] by blast
qed

section \<open>Key dispatch\<close>

lemma toggle_flag: "is_face_selected (snd (toggle fs s)) = (\<not> is_face_selected s)"
  by (simp add: toggle_def Let_def split: sum.splits)

lemma toggle_never_breaks: "toggle fs s = (Inr r, s') \<Longrightarrow> r = Continue"
  by (auto simp: toggle_def Let_def split: sum.splits if_splits)

lemma bindings_dispatch:
  assumes "(name, sel, nk, pk) \<in> set key_bindings"
  shows "handle_key fs nk s =
     (if is_face_selected s = sel then cycle_asset name 1 s else (Inr Continue, s)) \<and>
   handle_key fs pk s =
     (if is_face_selected s = sel then cycle_asset name (- 1) s else (Inr Continue, s))"
proof -
  from assms consider
    "name = ''hat''" "\<not> sel" "nk = 101" "pk = 113"
    | "name = ''glasses''" "\<not> sel" "nk = 100" "pk = 97"
    | "name = ''nose''" "\<not> sel" "nk = 119" "pk = 115"
    | "name = ''mouth''" "\<not> sel" "nk = 99" "pk = 122"
    | "name = ''face''" "sel" "nk = 109" "pk = 110"
    by (auto simp: key_bindings_def ord_values)
  then show ?thesis
    by cases (simp_all add: handle_key_def ord_values)
qed

lemma unrecognized_key:
  "key \<notin> set all_keys \<Longrightarrow> handle_key fs key s = (Inr Continue, s)"
  by (simp add: all_keys_def cycle_keys_def handle_key_def)

lemma quit_key: "handle_key fs (ord CHR ''l'') s = (Inr Break, s)"
  by (simp add: handle_key_def ord_values)

lemma quit_leaves_loop:
  assumes "is_opened t" and "process_frame c t s = (Inr (Some fr), s1)"
    and "wait_key t AND 0xFF = ord CHR ''l''"
  shows "run c fs (t # ts) s =
     (Exited, s1\<lparr>displayed := displayed s1 @ [fr], cap_released := cap_released s1 + 1,
                   windows_destroyed := windows_destroyed s1 + 1\<rparr>)"
  using assms by (simp add: run_def quit_key)

text \<open>
  C4. For every session state and key: each cycle key of \<open>key_bindings\<close> performs its
  cycle step when the session is in the state that owns the kind and otherwise leaves the
  session as it is; the key \<open>f\<close> runs the toggle in both states, which flips
  \<open>is_face_selected\<close> whatever the state and, when it does not raise, continues the loop
  with the filter mapping of the new state; the key \<open>l\<close> breaks out of the loop, so
  that \<open>run\<close> ends with the capture released; any other key leaves the session unchanged
  and raises nothing.
\<close>

theorem key_dispatch:
  "(\<forall>(name, sel, nk, pk) \<in> set key_bindings.
      handle_key fs nk s =
        (if is_face_selected s = sel then cycle_asset name 1 s else (Inr Continue, s)) \<and>
      handle_key fs pk s =
        (if is_face_selected s = sel then cycle_asset name (- 1) s else (Inr Continue, s))) \<and>
   handle_key fs (ord CHR ''f'') s = toggle fs s \<and>
   is_face_selected (snd (toggle fs s)) = (\<not> is_face_selected s) \<and>
   (\<forall>r s'. toggle fs s = (Inr r, s') \<longrightarrow> r = Continue \<and> config_ok s') \<and>
   handle_key fs (ord CHR ''l'') s = (Inr Break, s) \<and>
   (is_opened t \<longrightarrow> process_frame c t s = (Inr (Some fr), s1) \<longrightarrow>
    wait_key t AND 0xFF = ord CHR ''l'' \<longrightarrow>
      run c fs (t # ts) s =
        (Exited, s1\<lparr>displayed := displayed s1 @ [fr], cap_released := cap_released s1 + 1,
                      windows_destroyed := windows_destroyed s1 + 1\<rparr>)) \<and>
   (key \<notin> set all_keys \<longrightarrow> handle_key fs key s = (Inr Continue, s))"
proof -
  have "\<forall>(name, sel, nk, pk) \<in> set key_bindings.
      handle_key fs nk s =
        (if is_face_selected s = sel then cycle_asset name 1 s else (Inr Continue, s)) \<and>
      handle_key fs pk s =
        (if is_face_selected s = sel then cycle_asset name (- 1) s else (Inr Continue, s))"
    using bindings_dispatch [of _ _ _ _ fs s] by blast
  moreover have "\<forall>r s'. toggle fs s = (Inr r, s') \<longrightarrow> r = Continue \<and> config_ok s'"
    using toggle_never_breaks toggle_config by blast
  ultimately show ?thesis
    using handle_key_f toggle_flag quit_key quit_leaves_loop unrecognized_key by blast
qed

lemma demo_process_frame:
  "process_frame demo_cv demo_tick demo_system =
     (Inr (Some
        [[(4, 5, 6), (1, 2, 3)], [(10, 11, 12), (7, 8, 9)], [(2, 0, 1)],
         [(3, 0, 1)], [(1, 0, 1)], [(2, 0, 1)], [(2, 0, 2)], [(3, 0, 2)],
         [(1, 0, 2)], [(2, 0, 2)], [(255, 255, 255)]]),
      demo_system\<lparr>frame_count := 1, prev_time := 1\<rparr>)"
  by (simp add: process_frame_def demo_cv_def demo_tick_def demo_system_def demo_frame_def
      demo_faces_def demo_mesh_def flip_frame_def cvtColor_BGR2RGB_def shape2_def Let_def)

theorem key_dispatch_witness:
  "(''hat'', False, ord CHR ''e'', ord CHR ''q'') \<in> set key_bindings \<and>
   handle_key demo_dirs (ord CHR ''e'') demo_face_system = (Inr Continue, demo_face_system) \<and>
   handle_key demo_dirs (ord CHR ''q'') demo_face_system = (Inr Continue, demo_face_system) \<and>
   (''face'', True, ord CHR ''m'', ord CHR ''n'') \<in> set key_bindings \<and>
   handle_key demo_dirs (ord CHR ''m'') demo_system = (Inr Continue, demo_system) \<and>
   handle_key demo_dirs (ord CHR ''n'') demo_system = (Inr Continue, demo_system) \<and>
   toggle demo_dirs demo_system =
     (Inr Continue,
      demo_system\<lparr>is_face_selected := True,
        active_filters :=
          [(''face'', \<lparr>kind = FaceMask, assets = [demo_asset, demo_asset], current_asset_idx = 0\<rparr>)]\<rparr>) \<and>
   config_ok
     (demo_system\<lparr>is_face_selected := True,
        active_filters :=
          [(''face'', \<lparr>kind = FaceMask, assets = [demo_asset, demo_asset], current_asset_idx = 0\<rparr>)]\<rparr>) \<and>
   is_opened demo_tick \<and>
   fst (process_frame demo_cv demo_tick demo_system) =
     Inr (Some
        [[(4, 5, 6), (1, 2, 3)], [(10, 11, 12), (7, 8, 9)], [(2, 0, 1)],
         [(3, 0, 1)], [(1, 0, 1)], [(2, 0, 1)], [(2, 0, 2)], [(3, 0, 2)],
         [(1, 0, 2)], [(2, 0, 2)], [(255, 255, 255)]]) \<and>
   wait_key demo_tick AND 0xFF = ord CHR ''l'' \<and>
   fst (run demo_cv demo_dirs [demo_tick] demo_system) = Exited \<and>
   cap_released (snd (run demo_cv demo_dirs [demo_tick] demo_system)) = 1 \<and>
   120 \<notin> set all_keys \<and>
   handle_key demo_dirs 120 demo_system = (Inr Continue, demo_system)"
proof -
  let ?face = "\<lparr>kind = FaceMask, assets = [demo_asset, demo_asset], current_asset_idx = 0\<rparr>"
  let ?fr = "[[(4, 5, 6), (1, 2, 3)], [(10, 11, 12), (7, 8, 9)], [(2, 0, 1)],
         [(3, 0, 1)], [(1, 0, 1)], [(2, 0, 1)], [(2, 0, 2)], [(3, 0, 2)],
         [(1, 0, 2)], [(2, 0, 2)], [(255, 255, 255)]] :: frame"
  let ?s1 = "demo_system\<lparr>frame_count := 1, prev_time := 1\<rparr>"
  note F = key_dispatch [of demo_dirs demo_face_system demo_tick demo_cv ?fr ?s1 "[]" 120]
  note S = key_dispatch [of demo_dirs demo_system demo_tick demo_cv ?fr ?s1 "[]" 120]
  have a: "(''hat'', False, ord CHR ''e'', ord CHR ''q'') \<in> set key_bindings"
    by (simp add: key_bindings_def)
  have b: "(''face'', True, ord CHR ''m'', ord CHR ''n'') \<in> set key_bindings"
    by (simp add: key_bindings_def)
  have fsel: "is_face_selected demo_face_system" "\<not> is_face_selected demo_system"
    by (simp_all add: demo_face_system_def demo_system_def)
  from F have "\<forall>(name, sel, nk, pk) \<in> set key_bindings.
      handle_key demo_dirs nk demo_face_system =
        (if is_face_selected demo_face_system = sel then cycle_asset name 1 demo_face_system
         else (Inr Continue, demo_face_system)) \<and>
      handle_key demo_dirs pk demo_face_system =
        (if is_face_selected demo_face_system = sel then cycle_asset name (- 1) demo_face_system
         else (Inr Continue, demo_face_system))"
    by (rule conjunct1)
  from bspec [OF this a] fsel
  have c: "handle_key demo_dirs (ord CHR ''e'') demo_face_system = (Inr Continue, demo_face_system)"
      "handle_key demo_dirs (ord CHR ''q'') demo_face_system = (Inr Continue, demo_face_system)"
    by simp_all
  from S have "\<forall>(name, sel, nk, pk) \<in> set key_bindings.
      handle_key demo_dirs nk demo_system =
        (if is_face_selected demo_system = sel then cycle_asset name 1 demo_system
         else (Inr Continue, demo_system)) \<and>
      handle_key demo_dirs pk demo_system =
        (if is_face_selected demo_system = sel then cycle_asset name (- 1) demo_system
         else (Inr Continue, demo_system))"
    by (rule conjunct1)
  from bspec [OF this b] fsel
  have d: "handle_key demo_dirs (ord CHR ''m'') demo_system = (Inr Continue, demo_system)"
      "handle_key demo_dirs (ord CHR ''n'') demo_system = (Inr Continue, demo_system)"
    by simp_all
  have e: "toggle demo_dirs demo_system =
      (Inr Continue, demo_system\<lparr>is_face_selected := True, active_filters := [(''face'', ?face)]\<rparr>)"
    using fsel(2)
    by (simp add: toggle_on FaceMaskFilter_def new_filter_def demo_dirs_def)
  from S e
  have f: "config_ok (demo_system\<lparr>is_face_selected := True, active_filters := [(''face'', ?face)]\<rparr>)"
    by blast
  have g: "is_opened demo_tick" "wait_key demo_tick AND 0xFF = ord CHR ''l''"
    by (simp_all add: demo_tick_def ord_values)
  have h: "process_frame demo_cv demo_tick demo_system = (Inr (Some ?fr), ?s1)"
    by (rule demo_process_frame)
  from S g h
  have "run demo_cv demo_dirs [demo_tick] demo_system =
      (Exited, ?s1\<lparr>displayed := displayed ?s1 @ [?fr], cap_released := cap_released ?s1 + 1,
                      windows_destroyed := windows_destroyed ?s1 + 1\<rparr>)"
    by blast
  then have i: "fst (run demo_cv demo_dirs [demo_tick] demo_system) = Exited"
      "cap_released (snd (run demo_cv demo_dirs [demo_tick] demo_system)) = 1"
    by (simp_all add: demo_system_def)
  have j: "120 \<notin> set all_keys"
    by (simp add: all_keys_def cycle_keys_def ord_values)
  from S j have k: "handle_key demo_dirs 120 demo_system = (Inr Continue, demo_system)"
    by blast
  from h have h': "fst (process_frame demo_cv demo_tick demo_system) = Inr (Some ?fr)"
    by simp
  show ?thesis
    using a b c d e f g h' i j k by blast
qed

section \<open>Frames without a face, and read failures\<close>

lemma process_frame_read_failure:
  "read_frame t = None \<Longrightarrow> process_frame c t s = (Inr None, s)"
  by (simp add: process_frame_def)

lemma apply_faces_nil_or_empty:
  "(case r of None \<Rightarrow> frame
    | Some faces \<Rightarrow> if faces = [] then frame else apply_faces c fl faces frame) =
   apply_faces c fl (case r of None \<Rightarrow> [] | Some faces \<Rightarrow> faces) frame"
  by (simp split: option.splits)

lemma process_frame_success:
  assumes "read_frame t = Some raw" and "time_now t \<noteq> prev_time s"
  shows "process_frame c t s =
     (Inr (Some (putText_fps c
                   (apply_faces c (active_filters s) (detected_faces t s raw) (flip_frame raw))
                   (1 / (time_now t - prev_time s)))),
      s\<lparr>frame_count := frame_count s + 1, prev_time := time_now t\<rparr>)"
  using assms
  by (simp add: process_frame_def Let_def detected_faces_def apply_faces_nil_or_empty)

lemma process_frame_zero_division:
  "read_frame t = Some raw \<Longrightarrow> time_now t = prev_time s \<Longrightarrow>
   process_frame c t s = (Inl ZeroDivisionError, s\<lparr>frame_count := frame_count s + 1\<rparr>)"
  by (simp add: process_frame_def Let_def)

lemma main_loop_append:
  "main_loop c fs pre s = (Inr NoMoreInput, s1) \<Longrightarrow>
   main_loop c fs (pre @ ts) s = main_loop c fs ts s1"
proof (induction pre arbitrary: s)
  case Nil
  then show ?case by simp
next
  case (Cons t pre)
  from Cons.prems show ?case
    by (auto simp: Let_def Cons.IH
        split: if_splits prod.splits sum.splits option.splits ctl.splits)
qed

text \<open>
  C5. When the frame was read, the face mesh reports no landmark set for it
  (\<open>multi_face_landmarks\<close> is \<open>None\<close> or empty) and the clock has advanced, then
  \<open>process_frame\<close> raises nothing and returns the mirrored capture with only the frame-rate
  text drawn on it; the result is the same whatever \<open>apply_filter\<close> would do, so no filter
  is applied; and unless the key pressed ends the loop, the loop goes on with the next
  iteration.
\<close>

theorem no_face_frame_passes_through:
  assumes "read_frame t = Some raw"
    and "detected_faces t s raw = []"
    and "time_now t \<noteq> prev_time s"
  shows "process_frame c t s =
           (Inr (Some (putText_fps c (flip_frame raw) (1 / (time_now t - prev_time s)))),
            s\<lparr>frame_count := frame_count s + 1, prev_time := time_now t\<rparr>) \<and>
         (\<forall>ap. process_frame (c\<lparr>apply_filter := ap\<rparr>) t s = process_frame c t s) \<and>
         (\<forall>s3. is_opened t \<longrightarrow>
            handle_key fs (wait_key t AND 0xFF)
              (s\<lparr>frame_count := frame_count s + 1, prev_time := time_now t,
                 displayed := displayed s @
                   [putText_fps c (flip_frame raw) (1 / (time_now t - prev_time s))]\<rparr>) =
              (Inr Continue, s3) \<longrightarrow>
            main_loop c fs (t # ts) s = main_loop c fs ts s3)"
proof -
  have 1: "process_frame c' t s =
      (Inr (Some (putText_fps c' (flip_frame raw) (1 / (time_now t - prev_time s)))),
       s\<lparr>frame_count := frame_count s + 1, prev_time := time_now t\<rparr>)" for c'
    using process_frame_success [OF assms(1,3), of c'] assms(2) by simp
  have 2: "process_frame (c\<lparr>apply_filter := ap\<rparr>) t s = process_frame c t s" for ap
    by (simp add: 1)
  have 3: "main_loop c fs (t # ts) s = main_loop c fs ts s3"
    if "is_opened t" and "handle_key fs (wait_key t AND 0xFF)
              (s\<lparr>frame_count := frame_count s + 1, prev_time := time_now t,
                 displayed := displayed s @
                   [putText_fps c (flip_frame raw) (1 / (time_now t - prev_time s))]\<rparr>) =
              (Inr Continue, s3)" for s3
    using that by (simp add: 1 Let_def)
  from 1 [of c] 2 3 show ?thesis by blast
qed

text \<open>
  C6. When, with the loop still running after the iterations \<open>pre\<close>, the capture is open
  and the read fails, then \<open>process_frame\<close> returns \<open>None\<close> with the state untouched, and
  \<open>run\<close> ends normally: no exception, the capture handle released once, the windows
  destroyed, whatever input would follow.
\<close>

theorem read_failure_ends_loop:
  assumes "main_loop c fs pre s = (Inr NoMoreInput, s1)"
    and "is_opened t" and "read_frame t = None"
  shows "process_frame c t s1 = (Inr None, s1) \<and>
         run c fs (pre @ t # ts) s =
           (Exited, s1\<lparr>cap_released := cap_released s1 + 1,
                         windows_destroyed := windows_destroyed s1 + 1\<rparr>)"
proof -
  have 1: "process_frame c t s1 = (Inr None, s1)"
    using assms(3) by (rule process_frame_read_failure)
  have "main_loop c fs (pre @ t # ts) s = main_loop c fs (t # ts) s1"
    using assms(1) by (rule main_loop_append)
  also have "\<dots> = (Inr LoopExit, s1)"
    using assms(2) 1 by simp
  finally show ?thesis
    using 1 by (simp add: run_def)
qed

theorem no_face_frame_passes_through_witness:
  "read_frame demo_tick_no_face = Some demo_frame \<and>
   detected_faces demo_tick_no_face demo_system demo_frame = [] \<and>
   time_now demo_tick_no_face \<noteq> prev_time demo_system \<and>
   fst (process_frame demo_cv demo_tick_no_face demo_system) =
     Inr (Some (putText_fps demo_cv (flip_frame demo_frame)
                  (1 / (time_now demo_tick_no_face - prev_time demo_system)))) \<and>
   process_frame (demo_cv\<lparr>apply_filter := (\<lambda>f frame lm shape. [])\<rparr>) demo_tick_no_face demo_system =
     process_frame demo_cv demo_tick_no_face demo_system \<and>
   is_opened demo_tick_no_face \<and>
   main_loop demo_cv demo_dirs [demo_tick_no_face, demo_tick] demo_system =
     main_loop demo_cv demo_dirs [demo_tick]
       (demo_system\<lparr>frame_count := frame_count demo_system + 1,
          prev_time := time_now demo_tick_no_face,
          displayed := displayed demo_system @
            [putText_fps demo_cv (flip_frame demo_frame)
               (1 / (time_now demo_tick_no_face - prev_time demo_system))]\<rparr>)"
proof -
  have a: "read_frame demo_tick_no_face = Some demo_frame"
    by (simp add: demo_tick_no_face_def demo_tick_def)
  have b: "detected_faces demo_tick_no_face demo_system demo_frame = []"
    by (simp add: detected_faces_def demo_tick_no_face_def demo_tick_def)
  have c: "time_now demo_tick_no_face \<noteq> prev_time demo_system"
    by (simp add: demo_tick_no_face_def demo_tick_def demo_system_def)
  have d: "is_opened demo_tick_no_face"
    by (simp add: demo_tick_no_face_def demo_tick_def)
  have k: "wait_key demo_tick_no_face AND 0xFF = 255"
    by (simp add: demo_tick_no_face_def demo_tick_def)
  have u: "255 \<notin> set all_keys"
    by (simp add: all_keys_def cycle_keys_def ord_values)
  note T = no_face_frame_passes_through [OF a b c, of demo_cv demo_dirs "[demo_tick]"]
  from T have 1: "fst (process_frame demo_cv demo_tick_no_face demo_system) =
     Inr (Some (putText_fps demo_cv (flip_frame demo_frame)
                  (1 / (time_now demo_tick_no_face - prev_time demo_system))))"
    by simp
  have 2: "process_frame (demo_cv\<lparr>apply_filter := (\<lambda>f frame lm shape. [])\<rparr>)
      demo_tick_no_face demo_system = process_frame demo_cv demo_tick_no_face demo_system"
    by (rule T [THEN conjunct2, THEN conjunct1, rule_format])
  have 3: "main_loop demo_cv demo_dirs [demo_tick_no_face, demo_tick] demo_system =
     main_loop demo_cv demo_dirs [demo_tick]
       (demo_system\<lparr>frame_count := frame_count demo_system + 1,
          prev_time := time_now demo_tick_no_face,
          displayed := displayed demo_system @
            [putText_fps demo_cv (flip_frame demo_frame)
               (1 / (time_now demo_tick_no_face - prev_time demo_system))]\<rparr>)"
    by (rule T [THEN conjunct2, THEN conjunct2, rule_format, OF d])
       (simp only: k unrecognized_key [OF u])
  show ?thesis
    by (intro conjI a b c d 1 2 3)
qed

lemma demo_no_face_iteration:
  "main_loop demo_cv demo_dirs [demo_tick_no_face] demo_system =
     (Inr NoMoreInput,
      demo_system\<lparr>frame_count := 1, prev_time := 1,
         displayed := [putText_fps demo_cv (flip_frame demo_frame) 1]\<rparr>)"
proof -
  have u: "255 \<notin> set all_keys"
    by (simp add: all_keys_def cycle_keys_def ord_values)
  have k: "wait_key demo_tick_no_face AND 0xFF = 255"
    by (simp add: demo_tick_no_face_def demo_tick_def)
  have o: "is_opened demo_tick_no_face"
    by (simp add: demo_tick_no_face_def demo_tick_def)
  have p: "process_frame demo_cv demo_tick_no_face demo_system =
     (Inr (Some (putText_fps demo_cv (flip_frame demo_frame) 1)),
      demo_system\<lparr>frame_count := 1, prev_time := 1\<rparr>)"
    by (simp add: process_frame_def demo_tick_no_face_def demo_tick_def demo_system_def Let_def)
  have d: "displayed (demo_system\<lparr>frame_count := 1, prev_time := 1\<rparr>) = []"
    by (simp add: demo_system_def)
  show ?thesis
    by (simp add: o p k d Let_def unrecognized_key [OF u])
qed

theorem read_failure_ends_loop_witness:
  "main_loop demo_cv demo_dirs [demo_tick_no_face] demo_system =
     (Inr NoMoreInput,
      demo_system\<lparr>frame_count := 1, prev_time := 1,
         displayed := [putText_fps demo_cv (flip_frame demo_frame) 1]\<rparr>) \<and>
   is_opened demo_tick_read_failure \<and> read_frame demo_tick_read_failure = None \<and>
   fst (run demo_cv demo_dirs ([demo_tick_no_face] @ demo_tick_read_failure # [demo_tick])
          demo_system) = Exited \<and>
   cap_released
     (snd (run demo_cv demo_dirs ([demo_tick_no_face] @ demo_tick_read_failure # [demo_tick])
             demo_system)) = 1"
proof -
  let ?s1 = "demo_system\<lparr>frame_count := 1, prev_time := 1,
         displayed := [putText_fps demo_cv (flip_frame demo_frame) 1]\<rparr>"
  have a: "main_loop demo_cv demo_dirs [demo_tick_no_face] demo_system = (Inr NoMoreInput, ?s1)"
    by (rule demo_no_face_iteration)
  have b: "is_opened demo_tick_read_failure"
    by (simp add: demo_tick_read_failure_def demo_tick_def)
  have c: "read_frame demo_tick_read_failure = None"
    by (simp add: demo_tick_read_failure_def)
  have r: "cap_released ?s1 = 0"
    by (simp add: demo_system_def)
  note T = read_failure_ends_loop [OF a b c, of "[demo_tick]", THEN conjunct2]
  have d: "fst (run demo_cv demo_dirs ([demo_tick_no_face] @ demo_tick_read_failure # [demo_tick])
          demo_system) = Exited"
    by (simp only: T fst_conv)
  have e: "cap_released
     (snd (run demo_cv demo_dirs ([demo_tick_no_face] @ demo_tick_read_failure # [demo_tick])
             demo_system)) = 1"
    by (simp only: T snd_conv) (simp add: r)
  show ?thesis
    by (intro conjI a b c d e)
qed

section \<open>Compositing\<close>

lemma apply_active_foldl:
  "apply_active c fl lm frame =
   foldl (\<lambda>fr filter_obj. apply_filter c filter_obj fr lm (shape2 fr)) frame (map snd fl)"
  by (induction fl arbitrary: frame) auto

lemma apply_faces_in_order:
  "apply_faces c fl faces frame = composite_in_order c fl faces frame"
proof (induction faces arbitrary: frame)
  case Nil
  show ?case by (simp add: composite_in_order_def)
next
  case (Cons lm lms)
  have "foldl (\<lambda>fr (lm, filter_obj). apply_filter c filter_obj fr lm (shape2 fr)) frame
          (map (Pair lm) (map snd fl)) = apply_active c fl lm frame"
    by (simp add: apply_active_foldl foldl_map)
  with Cons.IH [of "apply_active c fl lm frame"] show ?case
    by (simp add: composite_in_order_def)
qed

lemma cycle_asset_keeps_order:
  "map_of (active_filters s) name = Some f \<Longrightarrow>
   map fst (active_filters (snd (cycle_asset name d s))) = map fst (active_filters s)"
  by (simp add: cycle_asset_def update_same_keys)

lemma standard_filters_kinds:
  "standard_filters fs = Inr d \<Longrightarrow> map (\<lambda>(name, f). kind f) d = [Glasses, Hat, Nose, Mouth]"
  by (auto simp: standard_filters_def GlassesFilter_def HatFilter_def NoseFilter_def
      MouthFilter_def split: sum.splits dest: new_filter_zero)

text \<open>
  C8. On every frame that was read (and with the clock advanced), the frame returned is
  the frame-rate text drawn on \<open>composite_in_order\<close>: starting from the mirrored capture,
  for each detected landmark set in detection order, \<open>apply_filter\<close> of every active filter
  in the order of the mapping, each application taking the frame the previous one returned.
  The order of the mapping is fixed: glasses, hat, nose, mouth as built, and cycling an
  asset does not move an entry.
\<close>

theorem faces_then_filters_in_order:
  assumes "read_frame t = Some raw" and "time_now t \<noteq> prev_time s"
  shows "fst (process_frame c t s) =
           Inr (Some (putText_fps c
                        (composite_in_order c (active_filters s) (detected_faces t s raw)
                           (flip_frame raw))
                        (1 / (time_now t - prev_time s)))) \<and>
         (\<forall>d. standard_filters fs = Inr d \<longrightarrow>
            map (\<lambda>(name, f). kind f) d = [Glasses, Hat, Nose, Mouth]) \<and>
         (\<forall>name f d. map_of (active_filters s) name = Some f \<longrightarrow>
            map fst (active_filters (snd (cycle_asset name d s))) = map fst (active_filters s))"
  using process_frame_success [OF assms, of c] standard_filters_kinds cycle_asset_keeps_order
  by (simp add: apply_faces_in_order)

lemma demo_composited:
  "putText_fps demo_cv
     (composite_in_order demo_cv (active_filters demo_system)
        (detected_faces demo_tick demo_system demo_frame) (flip_frame demo_frame))
     (1 / (time_now demo_tick - prev_time demo_system)) =
   [[(4, 5, 6), (1, 2, 3)], [(10, 11, 12), (7, 8, 9)], [(2, 0, 1)], [(3, 0, 1)], [(1, 0, 1)],
    [(2, 0, 1)], [(2, 0, 2)], [(3, 0, 2)], [(1, 0, 2)], [(2, 0, 2)], [(255, 255, 255)]]"
  by (simp add: composite_in_order_def detected_faces_def demo_cv_def demo_tick_def
      demo_system_def demo_frame_def demo_faces_def demo_mesh_def flip_frame_def
      cvtColor_BGR2RGB_def shape2_def)

lemma demo_standard_filters: "standard_filters demo_dirs = Inr (active_filters demo_system)"
  by (simp add: standard_filters_def GlassesFilter_def HatFilter_def NoseFilter_def
      MouthFilter_def new_filter_def demo_dirs_def demo_system_def)

theorem faces_then_filters_in_order_witness:
  "read_frame demo_tick = Some demo_frame \<and>
   time_now demo_tick \<noteq> prev_time demo_system \<and>
   fst (process_frame demo_cv demo_tick demo_system) =
     Inr (Some
       [[(4, 5, 6), (1, 2, 3)], [(10, 11, 12), (7, 8, 9)], [(2, 0, 1)], [(3, 0, 1)], [(1, 0, 1)],
        [(2, 0, 1)], [(2, 0, 2)], [(3, 0, 2)], [(1, 0, 2)], [(2, 0, 2)], [(255, 255, 255)]]) \<and>
   standard_filters demo_dirs = Inr (active_filters demo_system) \<and>
   map (\<lambda>(name, f). kind f) (active_filters demo_system) = [Glasses, Hat, Nose, Mouth]"
proof -
  have a: "read_frame demo_tick = Some demo_frame"
    by (simp add: demo_tick_def)
  have b: "time_now demo_tick \<noteq> prev_time demo_system"
    by (simp add: demo_tick_def demo_system_def)
  note T = faces_then_filters_in_order [OF a b, of demo_cv demo_dirs]
  have 1: "fst (process_frame demo_cv demo_tick demo_system) =
     Inr (Some
       [[(4, 5, 6), (1, 2, 3)], [(10, 11, 12), (7, 8, 9)], [(2, 0, 1)], [(3, 0, 1)], [(1, 0, 1)],
        [(2, 0, 1)], [(2, 0, 2)], [(3, 0, 2)], [(1, 0, 2)], [(2, 0, 2)], [(255, 255, 255)]])"
    by (simp only: T [THEN conjunct1] demo_composited)
  have 2: "map (\<lambda>(name, f). kind f) (active_filters demo_system) = [Glasses, Hat, Nose, Mouth]"
    by (rule T [THEN conjunct2, THEN conjunct1, rule_format, OF demo_standard_filters])
  show ?thesis
    by (intro conjI a b 1 2 demo_standard_filters)
qed

lemma cycle_asset_untouched:
  "resources (snd (cycle_asset name d s)) = resources s"
  "displayed (snd (cycle_asset name d s)) = displayed s"
  by (simp_all add: cycle_asset_def resources_def split: option.splits)

lemma toggle_untouched:
  "resources (snd (toggle fs s)) = resources s"
  "displayed (snd (toggle fs s)) = displayed s"
  by (simp_all add: toggle_def Let_def resources_def split: sum.splits)

lemma handle_key_untouched:
  "resources (snd (handle_key fs key s)) = resources s"
  "displayed (snd (handle_key fs key s)) = displayed s"
  by (rule handle_key_cases; simp add: cycle_asset_untouched toggle_untouched)+

lemma process_frame_untouched:
  "resources (snd (process_frame c t s)) = resources s"
  "displayed (snd (process_frame c t s)) = displayed s"
  by (simp_all add: process_frame_def Let_def resources_def split: option.splits)

lemma main_loop_untouched: "resources (snd (main_loop c fs ts s)) = resources s"
proof (induction ts arbitrary: s)
  case Nil
  show ?case by simp
next
  case (Cons t ts)
  show ?case
  proof (cases "is_opened t")
    case False
    then show ?thesis by simp
  next
    case True
    obtain r s1 where p: "process_frame c t s = (r, s1)"
      by (cases "process_frame c t s")
    then have s1: "resources s1 = resources s"
      using process_frame_untouched(1) [of c t s] by simp
    show ?thesis
    proof (cases r)
      case (Inl e)
      with True p s1 show ?thesis by simp
    next
      case (Inr fo)
      show ?thesis
      proof (cases fo)
        case None
        with True p s1 Inr show ?thesis by simp
      next
        case (Some fr)
        let ?s2 = "s1\<lparr>displayed := displayed s1 @ [fr]\<rparr>"
        obtain r' s3 where h: "handle_key fs (wait_key t AND 0xFF) ?s2 = (r', s3)"
          by (cases "handle_key fs (wait_key t AND 0xFF) ?s2")
        then have "resources s3 = resources ?s2"
          using handle_key_untouched(1) [of fs "wait_key t AND 0xFF" ?s2] by simp
        then have s3: "resources s3 = resources s"
          using s1 by (simp add: resources_def)
        show ?thesis
          using True p Inr Some h s3 Cons.IH [of s3]
          by (simp add: Let_def split: sum.splits ctl.splits)
      qed
    qed
  qed
qed

section \<open>The mirrored frame and the face limit\<close>

lemma flip_frame_pixel:
  "y < length raw \<Longrightarrow> x < length (raw ! y) \<Longrightarrow>
   flip_frame raw ! y ! x = raw ! y ! (length (raw ! y) - 1 - x)"
  by (simp add: flip_frame_def rev_nth)

lemma flip_frame_size:
  "length (flip_frame raw) = length raw"
  "y < length raw \<Longrightarrow> length (flip_frame raw ! y) = length (raw ! y)"
  by (simp_all add: flip_frame_def)

lemma main_loop_single_displayed:
  assumes "is_opened t" and "process_frame c t s = (Inr (Some fr), s1)"
  shows "displayed (snd (main_loop c fs [t] s)) = displayed s @ [fr]"
proof -
  let ?s2 = "s1\<lparr>displayed := displayed s1 @ [fr]\<rparr>"
  have "snd (main_loop c fs [t] s) = snd (handle_key fs (wait_key t AND 0xFF) ?s2)"
    using assms by (simp add: Let_def split: prod.splits sum.splits ctl.splits)
  moreover have "displayed s1 = displayed s"
    using process_frame_untouched(2) [of c t s] assms(2) by simp
  ultimately show ?thesis
    by (simp add: handle_key_untouched(2))
qed

text \<open>
  C9. Every frame that was read is flipped horizontally before anything else is done with
  it: the face mesh is asked about the flipped frame (in RGB), the filters draw onto the
  flipped frame, and what is displayed is that frame. Flipped means: same height, every
  row of the same width, and the pixel in column \<open>x\<close> is the captured pixel in column
  \<open>width - 1 - x\<close> of the same row.
\<close>

theorem capture_is_mirrored:
  assumes "read_frame t = Some raw" and "time_now t \<noteq> prev_time s"
  shows "fst (process_frame c t s) =
           Inr (Some (putText_fps c
                        (apply_faces c (active_filters s)
                           (case mesh_process t (face_mesh s) (cvtColor_BGR2RGB (flip_frame raw)) of
                              None \<Rightarrow> [] | Some faces \<Rightarrow> faces)
                           (flip_frame raw))
                        (1 / (time_now t - prev_time s)))) \<and>
         length (flip_frame raw) = length raw \<and>
         (\<forall>y < length raw.
            length (flip_frame raw ! y) = length (raw ! y) \<and>
            (\<forall>x < length (raw ! y).
               flip_frame raw ! y ! x = raw ! y ! (length (raw ! y) - 1 - x))) \<and>
         (is_opened t \<longrightarrow>
            displayed (snd (main_loop c fs [t] s)) =
              displayed s @
                [putText_fps c
                   (apply_faces c (active_filters s)
                      (case mesh_process t (face_mesh s) (cvtColor_BGR2RGB (flip_frame raw)) of
                         None \<Rightarrow> [] | Some faces \<Rightarrow> faces)
                      (flip_frame raw))
                   (1 / (time_now t - prev_time s))])"
proof -
  note p = process_frame_success [OF assms, of c, unfolded detected_faces_def]
  have 1: "fst (process_frame c t s) =
           Inr (Some (putText_fps c
                        (apply_faces c (active_filters s)
                           (case mesh_process t (face_mesh s) (cvtColor_BGR2RGB (flip_frame raw)) of
                              None \<Rightarrow> [] | Some faces \<Rightarrow> faces)
                           (flip_frame raw))
                        (1 / (time_now t - prev_time s))))"
    by (simp add: p)
  have 2: "\<forall>y < length raw.
            length (flip_frame raw ! y) = length (raw ! y) \<and>
            (\<forall>x < length (raw ! y).
               flip_frame raw ! y ! x = raw ! y ! (length (raw ! y) - 1 - x))"
    using flip_frame_pixel flip_frame_size(2) by blast
  have 3: "is_opened t \<longrightarrow>
            displayed (snd (main_loop c fs [t] s)) =
              displayed s @
                [putText_fps c
                   (apply_faces c (active_filters s)
                      (case mesh_process t (face_mesh s) (cvtColor_BGR2RGB (flip_frame raw)) of
                         None \<Rightarrow> [] | Some faces \<Rightarrow> faces)
                      (flip_frame raw))
                   (1 / (time_now t - prev_time s))]"
    using main_loop_single_displayed [OF _ p, of fs] by blast
  show ?thesis
    by (intro conjI 1 2 3 flip_frame_size(1))
qed

theorem capture_is_mirrored_witness:
  "read_frame demo_tick = Some demo_frame \<and>
   time_now demo_tick \<noteq> prev_time demo_system \<and>
   fst (process_frame demo_cv demo_tick demo_system) =
     Inr (Some
       [[(4, 5, 6), (1, 2, 3)], [(10, 11, 12), (7, 8, 9)], [(2, 0, 1)], [(3, 0, 1)], [(1, 0, 1)],
        [(2, 0, 1)], [(2, 0, 2)], [(3, 0, 2)], [(1, 0, 2)], [(2, 0, 2)], [(255, 255, 255)]]) \<and>
   1 < length demo_frame \<and> 0 < length (demo_frame ! 1) \<and>
   flip_frame demo_frame ! 1 ! 0 = demo_frame ! 1 ! (length (demo_frame ! 1) - 1 - 0) \<and>
   demo_frame ! 1 ! (length (demo_frame ! 1) - 1 - 0) = (10, 11, 12) \<and>
   is_opened demo_tick \<and>
   displayed (snd (main_loop demo_cv demo_dirs [demo_tick] demo_system)) =
     [[[(4, 5, 6), (1, 2, 3)], [(10, 11, 12), (7, 8, 9)], [(2, 0, 1)], [(3, 0, 1)], [(1, 0, 1)],
       [(2, 0, 1)], [(2, 0, 2)], [(3, 0, 2)], [(1, 0, 2)], [(2, 0, 2)], [(255, 255, 255)]]]"
proof -
  have a: "read_frame demo_tick = Some demo_frame"
    by (simp add: demo_tick_def)
  have b: "time_now demo_tick \<noteq> prev_time demo_system"
    by (simp add: demo_tick_def demo_system_def)
  have o: "is_opened demo_tick"
    by (simp add: demo_tick_def)
  have y: "1 < length demo_frame" and x: "0 < length (demo_frame ! 1)"
    and v: "demo_frame ! 1 ! (length (demo_frame ! 1) - 1 - 0) = (10, 11, 12)"
    by (simp_all add: demo_frame_def)
  have d: "displayed demo_system = []"
    by (simp add: demo_system_def)
  note ev = demo_composited [unfolded detected_faces_def, folded apply_faces_in_order]
  note T = capture_is_mirrored [OF a b, of demo_cv demo_dirs]
  have 1: "fst (process_frame demo_cv demo_tick demo_system) =
     Inr (Some
       [[(4, 5, 6), (1, 2, 3)], [(10, 11, 12), (7, 8, 9)], [(2, 0, 1)], [(3, 0, 1)], [(1, 0, 1)],
        [(2, 0, 1)], [(2, 0, 2)], [(3, 0, 2)], [(1, 0, 2)], [(2, 0, 2)], [(255, 255, 255)]])"
    by (simp only: T [THEN conjunct1] ev)
  have 2: "flip_frame demo_frame ! 1 ! 0 = demo_frame ! 1 ! (length (demo_frame ! 1) - 1 - 0)"
    using T [THEN conjunct2, THEN conjunct2, THEN conjunct1, rule_format, OF y,
        THEN conjunct2, rule_format, OF x] .
  have 3: "displayed (snd (main_loop demo_cv demo_dirs [demo_tick] demo_system)) =
     [[[(4, 5, 6), (1, 2, 3)], [(10, 11, 12), (7, 8, 9)], [(2, 0, 1)], [(3, 0, 1)], [(1, 0, 1)],
       [(2, 0, 1)], [(2, 0, 2)], [(3, 0, 2)], [(1, 0, 2)], [(2, 0, 2)], [(255, 255, 255)]]]"
    by (simp only: T [THEN conjunct2, THEN conjunct2, THEN conjunct2, rule_format, OF o]
        ev d append_Nil)
  show ?thesis
    by (intro conjI a b o y x v 1 2 3)
qed

text \<open>
  C10. The face mesh is built with \<open>max_num_faces = 2\<close> and the loop never changes that.
  Provided the face mesh returns no more landmark sets than its configuration allows, a
  frame gets the filters applied for at most two landmark sets: at most two times the
  number of active filters applications of \<open>apply_filter\<close>.
\<close>

theorem at_most_two_faces:
  assumes "read_frame t = Some raw" and "time_now t \<noteq> prev_time s"
    and "max_num_faces (face_mesh s) = 2"
    and "\<forall>faces. mesh_process t (face_mesh s) (cvtColor_BGR2RGB (flip_frame raw)) = Some faces \<longrightarrow>
           length faces \<le> max_num_faces (face_mesh s)"
  shows "length (detected_faces t s raw) \<le> 2 \<and>
         fst (process_frame c t s) =
           Inr (Some (putText_fps c
                        (composite_in_order c (active_filters s) (detected_faces t s raw)
                           (flip_frame raw))
                        (1 / (time_now t - prev_time s)))) \<and>
         length (List.product (detected_faces t s raw) (map snd (active_filters s))) \<le>
           2 * length (active_filters s) \<and>
         (\<forall>s0. init fs now = Inr s0 \<longrightarrow> max_num_faces (face_mesh s0) = 2) \<and>
         face_mesh (snd (main_loop c fs ts s)) = face_mesh s"
proof -
  have 1: "length (detected_faces t s raw) \<le> 2"
    using assms(3,4) by (auto simp: detected_faces_def split: option.splits)
  have 2: "fst (process_frame c t s) =
           Inr (Some (putText_fps c
                        (composite_in_order c (active_filters s) (detected_faces t s raw)
                           (flip_frame raw))
                        (1 / (time_now t - prev_time s))))"
    by (simp add: process_frame_success [OF assms(1,2)] apply_faces_in_order)
  have 3: "length (List.product (detected_faces t s raw) (map snd (active_filters s))) \<le>
           2 * length (active_filters s)"
    using 1 by (simp add: length_product)
  have 4: "\<forall>s0. init fs now = Inr s0 \<longrightarrow> max_num_faces (face_mesh s0) = 2"
    by (auto simp: init_def split: sum.splits)
  have 5: "face_mesh (snd (main_loop c fs ts s)) = face_mesh s"
    using main_loop_untouched [of c fs ts s] by (simp add: resources_def)
  show ?thesis
    by (intro conjI 1 2 3 4 5)
qed

theorem at_most_two_faces_witness:
  "read_frame demo_tick = Some demo_frame \<and>
   time_now demo_tick \<noteq> prev_time demo_system \<and>
   max_num_faces (face_mesh demo_system) = 2 \<and>
   mesh_process demo_tick (face_mesh demo_system) (cvtColor_BGR2RGB (flip_frame demo_frame)) =
     Some (take 2 demo_faces) \<and>
   length demo_faces = 3 \<and>
   length (detected_faces demo_tick demo_system demo_frame) \<le> 2 \<and>
   fst (process_frame demo_cv demo_tick demo_system) =
     Inr (Some
       [[(4, 5, 6), (1, 2, 3)], [(10, 11, 12), (7, 8, 9)], [(2, 0, 1)], [(3, 0, 1)], [(1, 0, 1)],
        [(2, 0, 1)], [(2, 0, 2)], [(3, 0, 2)], [(1, 0, 2)], [(2, 0, 2)], [(255, 255, 255)]]) \<and>
   length (List.product (detected_faces demo_tick demo_system demo_frame)
             (map snd (active_filters demo_system))) \<le>
     2 * length (active_filters demo_system) \<and>
   init demo_dirs 0 = Inr demo_system"
proof -
  have a: "read_frame demo_tick = Some demo_frame"
    by (simp add: demo_tick_def)
  have b: "time_now demo_tick \<noteq> prev_time demo_system"
    by (simp add: demo_tick_def demo_system_def)
  have m: "max_num_faces (face_mesh demo_system) = 2"
    by (simp add: demo_system_def demo_mesh_def)
  have p: "mesh_process demo_tick (face_mesh demo_system)
      (cvtColor_BGR2RGB (flip_frame demo_frame)) = Some (take 2 demo_faces)"
    by (simp add: demo_tick_def m)
  have n: "length demo_faces = 3"
    by (simp add: demo_faces_def)
  have h: "\<forall>faces. mesh_process demo_tick (face_mesh demo_system)
      (cvtColor_BGR2RGB (flip_frame demo_frame)) = Some faces \<longrightarrow>
      length faces \<le> max_num_faces (face_mesh demo_system)"
    by (simp add: p m)
  have i: "init demo_dirs 0 = Inr demo_system"
    by (simp add: init_def demo_standard_filters) (simp add: demo_system_def demo_mesh_def)
  note T = at_most_two_faces [OF a b m h, of demo_cv demo_dirs 0 "[]"]
  have 1: "length (detected_faces demo_tick demo_system demo_frame) \<le> 2"
    by (rule T [THEN conjunct1])
  have 2: "fst (process_frame demo_cv demo_tick demo_system) =
     Inr (Some
       [[(4, 5, 6), (1, 2, 3)], [(10, 11, 12), (7, 8, 9)], [(2, 0, 1)], [(3, 0, 1)], [(1, 0, 1)],
        [(2, 0, 1)], [(2, 0, 2)], [(3, 0, 2)], [(1, 0, 2)], [(2, 0, 2)], [(255, 255, 255)]])"
    by (simp only: T [THEN conjunct2, THEN conjunct1] demo_composited)
  have 3: "length (List.product (detected_faces demo_tick demo_system demo_frame)
             (map snd (active_filters demo_system))) \<le>
     2 * length (active_filters demo_system)"
    by (rule T [THEN conjunct2, THEN conjunct2, THEN conjunct1])
  show ?thesis
    by (intro conjI a b m p n i 1 2 3)
qed

section \<open>The capture handle\<close>

lemma run_accounting:
  "cap_acquired (snd (run c fs ts s)) = cap_acquired s \<and>
   cap_released (snd (run c fs ts s)) =
     cap_released s + (if fst (run c fs ts s) = Exited then 1 else 0)"
proof -
  obtain r s1 where m: "main_loop c fs ts s = (r, s1)"
    by (cases "main_loop c fs ts s")
  then have "resources s1 = resources s"
    using main_loop_untouched [of c fs ts s] by simp
  then have "cap_acquired s1 = cap_acquired s" "cap_released s1 = cap_released s"
    by (simp_all add: resources_def)
  with m show ?thesis
    by (simp add: run_def split: sum.splits loop_end.splits)
qed

lemma loop_exits:
  assumes "main_loop c fs pre s = (Inr NoMoreInput, s1)"
    and "\<not> is_opened t \<or> read_frame t = None \<or>
         (\<exists>fr s2. process_frame c t s1 = (Inr (Some fr), s2) \<and>
                   wait_key t AND 0xFF = ord CHR ''l'')"
  shows "fst (run c fs (pre @ t # ts) s) = Exited"
proof -
  have "fst (main_loop c fs (t # ts) s1) = Inr LoopExit"
    using assms(2) by (auto simp: process_frame_read_failure quit_key Let_def)
  then have "fst (main_loop c fs (pre @ t # ts) s) = Inr LoopExit"
    by (simp add: main_loop_append [OF assms(1)])
  then show ?thesis
    by (cases "main_loop c fs (pre @ t # ts) s") (simp add: run_def)
qed

text \<open>
  C7, as the code has it. The capture handle is created once, by \<open>init\<close>, which leaves it
  unreleased. \<open>run\<close> never creates a handle, and releases the handle exactly once when the
  loop ends without an exception and not otherwise: the release is a statement after the
  loop, not a scoped release. The loop ends without an exception, at any iteration, when
  the capture is no longer open, when the read fails, or on the key \<open>l\<close>.
\<close>

theorem release_after_normal_exit:
  "(\<forall>s0. init fs now = Inr s0 \<longrightarrow> cap_acquired s0 = 1 \<and> cap_released s0 = 0) \<and>
   cap_acquired (snd (run c fs ts s)) = cap_acquired s \<and>
   cap_released (snd (run c fs ts s)) =
     cap_released s + (if fst (run c fs ts s) = Exited then 1 else 0) \<and>
   (main_loop c fs pre s = (Inr NoMoreInput, s1) \<longrightarrow>
    (\<not> is_opened t \<or> read_frame t = None \<or>
     (\<exists>fr s2. process_frame c t s1 = (Inr (Some fr), s2) \<and>
               wait_key t AND 0xFF = ord CHR ''l'')) \<longrightarrow>
      fst (run c fs (pre @ t # ts') s) = Exited \<and>
      cap_released (snd (run c fs (pre @ t # ts') s)) = cap_released s + 1)"
proof -
  have 1: "\<forall>s0. init fs now = Inr s0 \<longrightarrow> cap_acquired s0 = 1 \<and> cap_released s0 = 0"
    by (auto simp: init_def split: sum.splits)
  have 2: "fst (run c fs (pre @ t # ts') s) = Exited \<and>
      cap_released (snd (run c fs (pre @ t # ts') s)) = cap_released s + 1"
    if "main_loop c fs pre s = (Inr NoMoreInput, s1)"
      and "\<not> is_opened t \<or> read_frame t = None \<or>
     (\<exists>fr s2. process_frame c t s1 = (Inr (Some fr), s2) \<and>
               wait_key t AND 0xFF = ord CHR ''l'')"
    using loop_exits [OF that, of ts'] run_accounting [of c fs "pre @ t # ts'" s] by simp
  from 1 2 run_accounting [of c fs ts s] show ?thesis
    by blast
qed

theorem release_after_normal_exit_witness:
  "init demo_dirs 0 = Inr demo_system \<and>
   cap_acquired demo_system = 1 \<and> cap_released demo_system = 0 \<and>
   main_loop demo_cv demo_dirs [] demo_system = (Inr NoMoreInput, demo_system) \<and>
   process_frame demo_cv demo_tick demo_system =
     (Inr (Some
        [[(4, 5, 6), (1, 2, 3)], [(10, 11, 12), (7, 8, 9)], [(2, 0, 1)],
         [(3, 0, 1)], [(1, 0, 1)], [(2, 0, 1)], [(2, 0, 2)], [(3, 0, 2)],
         [(1, 0, 2)], [(2, 0, 2)], [(255, 255, 255)]]),
      demo_system\<lparr>frame_count := 1, prev_time := 1\<rparr>) \<and>
   wait_key demo_tick AND 0xFF = ord CHR ''l'' \<and>
   fst (run demo_cv demo_dirs ([] @ demo_tick # [demo_tick]) demo_system) = Exited \<and>
   cap_released (snd (run demo_cv demo_dirs ([] @ demo_tick # [demo_tick]) demo_system)) =
     cap_released demo_system + 1"
proof -
  have i: "init demo_dirs 0 = Inr demo_system"
    by (simp add: init_def demo_standard_filters) (simp add: demo_system_def demo_mesh_def)
  have m: "main_loop demo_cv demo_dirs [] demo_system = (Inr NoMoreInput, demo_system)"
    by simp
  have k: "wait_key demo_tick AND 0xFF = ord CHR ''l''"
    by (simp add: demo_tick_def ord_values)
  note p = demo_process_frame
  have d: "\<not> is_opened demo_tick \<or> read_frame demo_tick = None \<or>
     (\<exists>fr s2. process_frame demo_cv demo_tick demo_system = (Inr (Some fr), s2) \<and>
               wait_key demo_tick AND 0xFF = ord CHR ''l'')"
    using p k by blast
  note T = release_after_normal_exit [where fs = demo_dirs and now = 0 and c = demo_cv
      and ts = "[]" and s = demo_system and pre = "[]" and ?s1.0 = demo_system
      and t = demo_tick and ts' = "[demo_tick]"]
  note a = T [THEN conjunct1, rule_format, OF i]
  note e = T [THEN conjunct2, THEN conjunct2, THEN conjunct2, rule_format, OF m d]
  show ?thesis
    by (intro conjI i m p k a [THEN conjunct1] a [THEN conjunct2]
        e [THEN conjunct1] e [THEN conjunct2])
qed

text \<open>
  Two runs that leave the loop by an exception, with the handle acquired and never
  released: the key \<open>f\<close> when the directory of the face masks is missing, so that the
  construction of the filter fails inside the loop; and a clock reading equal to the
  previous one, so that the frame-rate division raises.
\<close>

theorem exception_leaves_capture_unreleased:
  "init demo_dirs_no_faces 0 = Inr demo_system \<and>
   fst (run demo_cv demo_dirs_no_faces [demo_tick_toggle, demo_tick] demo_system) =
     Raised AssetLoadError \<and>
   cap_acquired (snd (run demo_cv demo_dirs_no_faces [demo_tick_toggle, demo_tick] demo_system)) = 1 \<and>
   cap_released (snd (run demo_cv demo_dirs_no_faces [demo_tick_toggle, demo_tick] demo_system)) = 0 \<and>
   init demo_dirs 0 = Inr demo_system \<and>
   fst (run demo_cv demo_dirs [demo_tick_same_time, demo_tick] demo_system) =
     Raised ZeroDivisionError \<and>
   cap_acquired (snd (run demo_cv demo_dirs [demo_tick_same_time, demo_tick] demo_system)) = 1 \<and>
   cap_released (snd (run demo_cv demo_dirs [demo_tick_same_time, demo_tick] demo_system)) = 0"
proof -
  have i1: "init demo_dirs_no_faces 0 = Inr demo_system"
    by (simp add: init_def standard_filters_def GlassesFilter_def HatFilter_def NoseFilter_def
        MouthFilter_def new_filter_def demo_dirs_no_faces_def demo_dirs_def demo_system_def
        demo_mesh_def)
  have i2: "init demo_dirs 0 = Inr demo_system"
    by (simp add: init_def demo_standard_filters) (simp add: demo_system_def demo_mesh_def)
  have o: "is_opened demo_tick_toggle" "wait_key demo_tick_toggle AND 0xFF = ord CHR ''f''"
    by (simp_all add: demo_tick_toggle_def demo_tick_def ord_values)
  have p: "process_frame demo_cv demo_tick_toggle demo_system =
      process_frame demo_cv demo_tick demo_system"
    by (simp add: process_frame_def demo_tick_toggle_def Let_def split: option.split)
  have f: "FaceMaskFilter demo_dirs_no_faces ''imgs/faces/'' = Inl AssetLoadError"
    by (simp add: FaceMaskFilter_def new_filter_def demo_dirs_no_faces_def)
  have t: "toggle demo_dirs_no_faces s = (Inl AssetLoadError, s\<lparr>is_face_selected := True\<rparr>)"
    if "\<not> is_face_selected s" for s
    using that by (simp add: toggle_def Let_def f)
  let ?fr = "[[(4, 5, 6), (1, 2, 3)], [(10, 11, 12), (7, 8, 9)], [(2, 0, 1)], [(3, 0, 1)],
             [(1, 0, 1)], [(2, 0, 1)], [(2, 0, 2)], [(3, 0, 2)], [(1, 0, 2)], [(2, 0, 2)],
             [(255, 255, 255)]] :: frame"
  let ?s1 = "demo_system\<lparr>frame_count := 1, prev_time := 1\<rparr>"
  let ?s2 = "demo_system\<lparr>frame_count := 1, prev_time := 1,
      displayed := displayed demo_system @ [?fr]\<rparr>"
  have q: "process_frame demo_cv demo_tick_toggle demo_system = (Inr (Some ?fr), ?s1)"
    by (simp only: p demo_process_frame)
  have sel: "\<not> is_face_selected ?s2"
    by (simp add: demo_system_def)
  have hk: "handle_key demo_dirs_no_faces (wait_key demo_tick_toggle AND 0xFF) ?s2 =
      (Inl AssetLoadError, ?s2\<lparr>is_face_selected := True\<rparr>)"
    by (simp only: o(2) handle_key_f t [OF sel])
  have m1: "main_loop demo_cv demo_dirs_no_faces [demo_tick_toggle, demo_tick] demo_system =
      (Inl AssetLoadError, ?s2\<lparr>is_face_selected := True\<rparr>)"
    by (simp add: o(1) q hk Let_def del: One_nat_def)
  have r1: "fst (run demo_cv demo_dirs_no_faces [demo_tick_toggle, demo_tick] demo_system) =
      Raised AssetLoadError"
    "cap_acquired (snd (run demo_cv demo_dirs_no_faces [demo_tick_toggle, demo_tick] demo_system)) = 1"
    "cap_released (snd (run demo_cv demo_dirs_no_faces [demo_tick_toggle, demo_tick] demo_system)) = 0"
    by (simp_all only: run_def m1 prod.case sum.case fst_conv snd_conv)
       (simp_all add: demo_system_def)
  have o2: "is_opened demo_tick_same_time" "read_frame demo_tick_same_time = Some demo_frame"
    "time_now demo_tick_same_time = prev_time demo_system"
    by (simp_all add: demo_tick_same_time_def demo_tick_def demo_system_def)
  have m2: "main_loop demo_cv demo_dirs [demo_tick_same_time, demo_tick] demo_system =
      (Inl ZeroDivisionError, demo_system\<lparr>frame_count := frame_count demo_system + 1\<rparr>)"
    by (simp add: o2(1) process_frame_zero_division [OF o2(2,3)])
  have r2: "fst (run demo_cv demo_dirs [demo_tick_same_time, demo_tick] demo_system) =
      Raised ZeroDivisionError"
    "cap_acquired (snd (run demo_cv demo_dirs [demo_tick_same_time, demo_tick] demo_system)) = 1"
    "cap_released (snd (run demo_cv demo_dirs [demo_tick_same_time, demo_tick] demo_system)) = 0"
    by (simp_all only: run_def m2 prod.case sum.case fst_conv snd_conv)
       (simp_all add: demo_system_def)
  show ?thesis
    by (intro conjI i1 i2 r1 r2)
qed

section \<open>The loop and the sequence of its keys\<close>

text \<open>
  As long as frames are read and the clock advances, the main loop does to the filters and
  to the flag what \<open>handle_keys\<close> does with the keys of its iterations, and ends as
  \<open>handle_keys\<close> ends.
\<close>

lemma cycle_asset_session:
  assumes "session s2 = session s"
  shows "fst (cycle_asset name d s2) = fst (cycle_asset name d s)"
    and "session (snd (cycle_asset name d s2)) = session (snd (cycle_asset name d s))"
  using assms by (auto simp: session_def cycle_asset_def split: option.splits)

lemma toggle_session:
  assumes "session s2 = session s"
  shows "fst (toggle fs s2) = fst (toggle fs s)"
    and "session (snd (toggle fs s2)) = session (snd (toggle fs s))"
  using assms by (auto simp: session_def toggle_def Let_def split: sum.splits)

lemma handle_key_session:
  assumes "session s2 = session s"
  shows "fst (handle_key fs key s2) = fst (handle_key fs key s) \<and>
         session (snd (handle_key fs key s2)) = session (snd (handle_key fs key s))"
proof -
  have f: "is_face_selected s2 = is_face_selected s"
    using assms by (simp add: session_def)
  show ?thesis
    unfolding handle_key_def f
    by (simp add: cycle_asset_session [OF assms] toggle_session [OF assms] assms)
qed

lemma handle_keys_session:
  "session s2 = session s \<Longrightarrow>
   fst (handle_keys fs keys s2) = fst (handle_keys fs keys s) \<and>
   session (snd (handle_keys fs keys s2)) = session (snd (handle_keys fs keys s))"
proof (induction keys arbitrary: s s2)
  case Nil
  then show ?case by simp
next
  case (Cons key keys)
  obtain r s' where a: "handle_key fs key s = (r, s')"
    by (cases "handle_key fs key s")
  obtain r2 s2' where b: "handle_key fs key s2 = (r2, s2')"
    by (cases "handle_key fs key s2")
  from handle_key_session [OF Cons.prems, of fs key] a b
  have eq: "r2 = r" "session s2' = session s'" by simp_all
  show ?case
  proof (cases r)
    case (Inl e)
    with a b eq show ?thesis by simp
  next
    case (Inr k)
    with a b eq Cons.IH [OF eq(2)] show ?thesis
      by (cases k) simp_all
  qed
qed

lemma main_loop_follows_keys:
  "frames_ok (prev_time s) ts \<Longrightarrow>
   fst (main_loop c fs ts s) = loop_result (fst (handle_keys fs (map pressed ts) s)) \<and>
   session (snd (main_loop c fs ts s)) = session (snd (handle_keys fs (map pressed ts) s))"
proof (induction ts arbitrary: s)
  case Nil
  show ?case by simp
next
  case (Cons t ts)
  from Cons.prems obtain raw where t: "is_opened t" "read_frame t = Some raw"
    "time_now t \<noteq> prev_time s" "frames_ok (time_now t) ts"
    by auto
  let ?fr = "putText_fps c
      (apply_faces c (active_filters s) (detected_faces t s raw) (flip_frame raw))
      (1 / (time_now t - prev_time s))"
  let ?s2 = "s\<lparr>frame_count := frame_count s + 1, prev_time := time_now t,
      displayed := displayed s @ [?fr]\<rparr>"
  have p: "process_frame c t s =
      (Inr (Some ?fr), s\<lparr>frame_count := frame_count s + 1, prev_time := time_now t\<rparr>)"
    using process_frame_success [OF t(2,3)] .
  have ses: "session ?s2 = session s"
    by (simp add: session_def)
  obtain r s3 where h: "handle_key fs (pressed t) ?s2 = (r, s3)"
    by (cases "handle_key fs (pressed t) ?s2")
  obtain r' s3' where h': "handle_key fs (pressed t) s = (r', s3')"
    by (cases "handle_key fs (pressed t) s")
  from handle_key_session [OF ses, of fs "pressed t"] h h'
  have eq: "r = r'" "session s3 = session s3'" by simp_all
  have pt: "prev_time s3 = time_now t"
  proof -
    have "prev_time (snd (handle_key fs key s0)) = prev_time s0" for key s0
      by (rule handle_key_cases)
         (simp_all add: cycle_asset_def toggle_def Let_def split: option.splits sum.splits)
    from this [of "pressed t" ?s2] h show ?thesis by simp
  qed
  have ml: "main_loop c fs (t # ts) s =
      (case r' of Inl e \<Rightarrow> (Inl e, s3) | Inr Break \<Rightarrow> (Inr LoopExit, s3)
       | Inr Continue \<Rightarrow> main_loop c fs ts s3)"
    using t(1) p h eq(1) by (simp add: Let_def pressed_def split: sum.splits ctl.splits)
  have hk: "handle_keys fs (map pressed (t # ts)) s =
      (case r' of Inl e \<Rightarrow> (Inl e, s3') | Inr Break \<Rightarrow> (Inr Break, s3')
       | Inr Continue \<Rightarrow> handle_keys fs (map pressed ts) s3')"
    using h' by (simp split: sum.splits ctl.splits)
  show ?case
  proof (cases r')
    case (Inl e)
    then show ?thesis unfolding ml hk by (simp add: eq(2))
  next
    case (Inr k)
    show ?thesis
    proof (cases k)
      case Break
      with Inr show ?thesis unfolding ml hk by (simp add: eq(2))
    next
      case Continue
      have "frames_ok (prev_time s3) ts" using t(4) pt by simp
      from Cons.IH [OF this] handle_keys_session [OF eq(2), of fs "map pressed ts"]
      show ?thesis
        using Inr Continue unfolding ml hk by simp
    qed
  qed
qed

end
